theory Spec2Isabelle
  imports Complex_Main "HOL-Library.Multiset"
begin

section \<open>Data model\<close>

text \<open>
  A JavaScript number. Finite doubles are modelled by the rational they denote and the
  arithmetic on them is exact: rounding, overflow, underflow and the sign of zero are not
  modelled, so a literal such as \<open>1e400\<close> is a finite number here and \<open>Infinity\<close> in the
  code. The three special values are kept, since the code tests for \<open>NaN\<close> and can
  divide by zero. At the inputs where the theorems below evaluate the code, doubles
  compute the same values, up to the rounding of a decimal literal such as \<open>1.234\<close> to
  the nearest double.
\<close>

datatype jsnum = NaN | PInf | NInf | Fin rat

text \<open>
  Modelled from the spec: the declarations of \<open>DataRow\<close> and \<open>ColumnMetadata\<close>, whose
  module \<open>types\<close> is not among the sources. A record maps column names to cell values,
  each a number or a text (what \<open>robustParseValue\<close> returns); column metadata is a name
  and an inferred type, which the code compares with \<open>'number'\<close> and \<open>'string'\<close>.

  A row is the list of its own properties in \<open>Object.keys\<close> order. Column names are
  assumed distinct from the property names every object inherits.
\<close>

datatype cell = CNum jsnum | CText string

type_synonym DataRow = "(string \<times> cell) list"

definition Object_keys :: "DataRow \<Rightarrow> string list" where
  "Object_keys row = map fst row"

definition Object_values :: "DataRow \<Rightarrow> cell list" where
  "Object_values row = map snd row"

text \<open>\<open>row[col]\<close>: \<open>None\<close> is \<open>undefined\<close>.\<close>

definition row_at :: "DataRow \<Rightarrow> string \<Rightarrow> cell option" where
  "row_at row col = map_of row col"

datatype coltype = TNumber | TString

record ColumnMetadata =
  name :: string
  type :: coltype

section \<open>Strings\<close>

text \<open>
  A string is its sequence of code units; only the code units below 256 are modelled.
  Of JavaScript's white space and line terminators these are tab, line feed, vertical
  tab, form feed, carriage return, space and the no-break space: what \<open>trim\<close> removes
  and what \<open>\s\<close> matches.
\<close>

definition isSpace :: "char \<Rightarrow> bool" where
  "isSpace c = (of_char c \<in> {9, 10, 11, 12, 13, 32, 160 :: nat})"

definition isDigit :: "char \<Rightarrow> bool" where
  "isDigit c = (c \<in> set ''0123456789'')"

text \<open>The letters among the code units below 256: the ASCII letters, the feminine and
  masculine ordinal indicators, the micro sign, and the accented letters from
  \<open>0xC0\<close> to \<open>0xFF\<close> (the multiplication and division signs are not letters).\<close>

definition isLetter :: "char \<Rightarrow> bool" where
  "isLetter c =
     (let n = (of_char c :: nat)
      in (65 \<le> n \<and> n \<le> 90) \<or> (97 \<le> n \<and> n \<le> 122) \<or> n = 170 \<or> n = 181 \<or> n = 186
         \<or> (192 \<le> n \<and> n \<le> 255 \<and> n \<noteq> 215 \<and> n \<noteq> 247))"

definition digitVal :: "char \<Rightarrow> nat" where
  "digitVal c = of_char c - 48"

definition digitsVal :: "string \<Rightarrow> nat" where
  "digitsVal ds = foldl (\<lambda>acc c. 10 * acc + digitVal c) 0 ds"

definition trimStart :: "string \<Rightarrow> string" where
  "trimStart s = dropWhile isSpace s"

definition trim :: "string \<Rightarrow> string" where
  "trim s = rev (dropWhile isSpace (rev (dropWhile isSpace s)))"

definition toLowerCase :: "string \<Rightarrow> string" where
  "toLowerCase s =
     map (\<lambda>c. let n = (of_char c :: nat)
              in if (65 \<le> n \<and> n \<le> 90) \<or> (192 \<le> n \<and> n \<le> 222 \<and> n \<noteq> 215)
                 then char_of (n + 32) else c) s"

fun startsWith :: "string \<Rightarrow> string \<Rightarrow> bool" where
  "startsWith s [] = True"
| "startsWith [] (c # t) = False"
| "startsWith (d # s) (c # t) = (d = c \<and> startsWith s t)"

text \<open>\<open>s.includes(t)\<close>.\<close>

fun str_includes :: "string \<Rightarrow> string \<Rightarrow> bool" where
  "str_includes [] t = (t = [])"
| "str_includes (c # s) t = (startsWith (c # s) t \<or> str_includes s t)"


section \<open>Numbers from strings\<close>

text \<open>An ExponentPart (e or E, an optional sign, digits) at the head of a string: the
  exponent and the rest. With no ExponentPart there the exponent is 0 and nothing is
  consumed.\<close>

definition exponentPart :: "string \<Rightarrow> int \<times> string" where
  "exponentPart s =
     (case s of
        [] \<Rightarrow> (0, s)
      | c # r \<Rightarrow>
          if c = CHR ''e'' \<or> c = CHR ''E'' then
            (let (neg, u) = (case r of
                               [] \<Rightarrow> (False, r)
                             | d # r' \<Rightarrow> if d = CHR ''-'' then (True, r')
                                         else if d = CHR ''+'' then (False, r') else (False, r));
                 ds = takeWhile isDigit u
             in if ds = [] then (0, s)
                else ((if neg then - int (digitsVal ds) else int (digitsVal ds)),
                      dropWhile isDigit u))
          else (0, s))"

definition pow10 :: "int \<Rightarrow> rat" where
  "pow10 e = (if e < 0 then 1 / 10 ^ nat (- e) else 10 ^ nat e)"

text \<open>The longest prefix of a string that is a StrUnsignedDecimalLiteral (\<open>Infinity\<close>,
  or digits with an optional fraction, or a fraction alone, then an optional exponent):
  its value, negated when \<open>neg\<close>, and the rest of the string. \<open>None\<close> when no prefix
  is one.\<close>

definition strUnsignedDecimalLiteral :: "bool \<Rightarrow> string \<Rightarrow> (jsnum \<times> string) option" where
  "strUnsignedDecimalLiteral neg u =
     (if startsWith u ''Infinity'' then Some (if neg then NInf else PInf, drop 8 u)
      else
        (let ip = takeWhile isDigit u;
             r1 = dropWhile isDigit u;
             (fp, r2) = (case r1 of
                           [] \<Rightarrow> ([], r1)
                         | c # r \<Rightarrow>
                             if c = CHR ''.'' \<and> (ip \<noteq> [] \<or> takeWhile isDigit r \<noteq> [])
                             then (takeWhile isDigit r, dropWhile isDigit r)
                             else ([], r1))
         in if ip = [] \<and> fp = [] then None
            else
              (let (e, r3) = exponentPart r2;
                   m = of_nat (digitsVal ip) + of_nat (digitsVal fp) / 10 ^ length fp
               in Some (Fin ((if neg then - m else m) * pow10 e), r3))))"

text \<open>A StrDecimalLiteral: an optional sign before the unsigned literal.\<close>

definition strDecimalLiteral :: "string \<Rightarrow> (jsnum \<times> string) option" where
  "strDecimalLiteral s =
     (case s of
        [] \<Rightarrow> strUnsignedDecimalLiteral False s
      | c # r \<Rightarrow> if c = CHR ''-'' then strUnsignedDecimalLiteral True r
                 else if c = CHR ''+'' then strUnsignedDecimalLiteral False r
                 else strUnsignedDecimalLiteral False s)"

text \<open>\<open>parseFloat(s)\<close>: leading white space is skipped, the longest numeric prefix is
  read, what follows it is ignored.\<close>

definition parseFloat :: "string \<Rightarrow> jsnum" where
  "parseFloat s = (case strDecimalLiteral (trimStart s) of None \<Rightarrow> NaN | Some (v, _) \<Rightarrow> v)"

text \<open>A NonDecimalIntegerLiteral: \<open>0x\<close>, \<open>0o\<close> or \<open>0b\<close> and digits of that base.\<close>

definition baseDigit :: "nat \<Rightarrow> char \<Rightarrow> nat option" where
  "baseDigit b c =
     (let v = (if isDigit c then digitVal c
               else if c \<in> set ''abcdef'' then of_char c - 87
               else if c \<in> set ''ABCDEF'' then of_char c - 55
               else 16)
      in if v < b then Some v else None)"

definition nonDecimalLiteral :: "string \<Rightarrow> jsnum option" where
  "nonDecimalLiteral s =
     (case s of
        z # x # ds \<Rightarrow>
          (let b = (if x \<in> set ''xX'' then 16 else if x \<in> set ''oO'' then 8
                    else if x \<in> set ''bB'' then 2 else (0::nat))
           in if z = CHR ''0'' \<and> b \<noteq> 0 \<and> ds \<noteq> [] \<and> list_all (\<lambda>c. baseDigit b c \<noteq> None) ds
              then Some (Fin (of_nat (foldl (\<lambda>acc c. b * acc + the (baseDigit b c)) 0 ds)))
              else None)
      | _ \<Rightarrow> None)"

text \<open>\<open>Number(s)\<close> of a string: the whole trimmed string must be a numeric literal; the
  empty string is 0.\<close>

definition stringToNumber :: "string \<Rightarrow> jsnum" where
  "stringToNumber s =
     (let t = trim s
      in if t = [] then Fin 0
         else case nonDecimalLiteral t of
                Some v \<Rightarrow> v
              | None \<Rightarrow> (case strDecimalLiteral t of
                           Some (v, r) \<Rightarrow> if r = [] then v else NaN
                         | None \<Rightarrow> NaN))"

text \<open>\<open>Number(row[col])\<close>.\<close>

definition toNumber :: "cell option \<Rightarrow> jsnum" where
  "toNumber v = (case v of None \<Rightarrow> NaN | Some (CNum n) \<Rightarrow> n | Some (CText s) \<Rightarrow> stringToNumber s)"

text \<open>\<open>String(row[col])\<close> and the value in a template literal. How a number prints is a
  parameter \<open>ns\<close> of the model.\<close>

definition toString :: "(jsnum \<Rightarrow> string) \<Rightarrow> cell option \<Rightarrow> string" where
  "toString ns v = (case v of None \<Rightarrow> ''undefined'' | Some (CNum n) \<Rightarrow> ns n | Some (CText s) \<Rightarrow> s)"

section \<open>Numbers to strings\<close>

text \<open>Decimal digits of a natural number, and how JavaScript prints the special values
  and the integers up to \<open>2^53\<close>; used where an example needs a concrete printer.\<close>

fun natDigits :: "nat \<Rightarrow> nat \<Rightarrow> string" where
  "natDigits 0 n = []"
| "natDigits (Suc fuel) n =
     (if n < 10 then [char_of (48 + n)] else natDigits fuel (n div 10) @ [char_of (48 + n mod 10)])"

definition integerToString :: "jsnum \<Rightarrow> string" where
  "integerToString v =
     (case v of
        NaN \<Rightarrow> ''NaN''
      | PInf \<Rightarrow> ''Infinity''
      | NInf \<Rightarrow> ''-Infinity''
      | Fin q \<Rightarrow> (if q < 0 then ''-'' else []) @ natDigits 21 (nat \<lfloor>\<bar>q\<bar>\<rfloor>))"

text \<open>\<open>x.toFixed(1)\<close> for the special values and for finite numbers below \<open>10^21\<close> in
  magnitude: the nearest tenth, the larger one at a tie.\<close>

definition toFixed1 :: "jsnum \<Rightarrow> string" where
  "toFixed1 v =
     (case v of
        NaN \<Rightarrow> ''NaN''
      | PInf \<Rightarrow> ''Infinity''
      | NInf \<Rightarrow> ''-Infinity''
      | Fin q \<Rightarrow>
          (let n = nat \<lfloor>\<bar>q\<bar> * 10 + 1 / 2\<rfloor>
           in (if q < 0 then ''-'' else []) @ natDigits 21 (n div 10) @ ''.'' @ natDigits 1 (n mod 10)))"

section \<open>Number comparison\<close>

text \<open>\<open>a <= b\<close> and \<open>a < b\<close> on numbers: false when either side is \<open>NaN\<close>.\<close>

fun js_le :: "jsnum \<Rightarrow> jsnum \<Rightarrow> bool" where
  "js_le NaN b = False"
| "js_le a NaN = False"
| "js_le NInf b = True"
| "js_le a PInf = True"
| "js_le PInf b = False"
| "js_le a NInf = False"
| "js_le (Fin x) (Fin y) = (x \<le> y)"

fun js_lt :: "jsnum \<Rightarrow> jsnum \<Rightarrow> bool" where
  "js_lt NaN b = False"
| "js_lt a NaN = False"
| "js_lt PInf b = False"
| "js_lt a NInf = False"
| "js_lt NInf b = True"
| "js_lt a PInf = True"
| "js_lt (Fin x) (Fin y) = (x < y)"

definition js_ge :: "jsnum \<Rightarrow> jsnum \<Rightarrow> bool" where
  "js_ge a b = js_le b a"

definition js_gt :: "jsnum \<Rightarrow> jsnum \<Rightarrow> bool" where
  "js_gt a b = js_lt b a"



section \<open>Number arithmetic\<close>

text \<open>Zero has no sign in this model: a division of a non-zero number by zero takes the
  sign of the numerator.\<close>

fun js_neg :: "jsnum \<Rightarrow> jsnum" where
  "js_neg NaN = NaN"
| "js_neg PInf = NInf"
| "js_neg NInf = PInf"
| "js_neg (Fin x) = Fin (- x)"

fun js_add :: "jsnum \<Rightarrow> jsnum \<Rightarrow> jsnum" where
  "js_add NaN b = NaN"
| "js_add a NaN = NaN"
| "js_add PInf NInf = NaN"
| "js_add NInf PInf = NaN"
| "js_add PInf b = PInf"
| "js_add NInf b = NInf"
| "js_add a PInf = PInf"
| "js_add a NInf = NInf"
| "js_add (Fin x) (Fin y) = Fin (x + y)"

definition js_sub :: "jsnum \<Rightarrow> jsnum \<Rightarrow> jsnum" where
  "js_sub a b = js_add a (js_neg b)"

fun js_mul :: "jsnum \<Rightarrow> jsnum \<Rightarrow> jsnum" where
  "js_mul NaN b = NaN"
| "js_mul a NaN = NaN"
| "js_mul (Fin x) (Fin y) = Fin (x * y)"
| "js_mul (Fin x) b = (if x = 0 then NaN else if 0 < x then b else js_neg b)"
| "js_mul a (Fin y) = (if y = 0 then NaN else if 0 < y then a else js_neg a)"
| "js_mul a b = (if a = b then PInf else NInf)"

fun js_div :: "jsnum \<Rightarrow> jsnum \<Rightarrow> jsnum" where
  "js_div NaN b = NaN"
| "js_div a NaN = NaN"
| "js_div (Fin x) (Fin y) =
     (if y = 0 then (if x = 0 then NaN else if 0 < x then PInf else NInf) else Fin (x / y))"
| "js_div (Fin x) b = Fin 0"
| "js_div a (Fin y) = (if y < 0 then js_neg a else a)"
| "js_div a b = NaN"

fun Math_floor :: "jsnum \<Rightarrow> jsnum" where
  "Math_floor (Fin x) = Fin (of_int \<lfloor>x\<rfloor>)"
| "Math_floor a = a"

text \<open>\<open>Math.min\<close> and \<open>Math.max\<close> of two numbers and of a spread list.\<close>

definition Math_min2 :: "jsnum \<Rightarrow> jsnum \<Rightarrow> jsnum" where
  "Math_min2 a b = (if a = NaN \<or> b = NaN then NaN else if js_lt b a then b else a)"

definition Math_max2 :: "jsnum \<Rightarrow> jsnum \<Rightarrow> jsnum" where
  "Math_max2 a b = (if a = NaN \<or> b = NaN then NaN else if js_lt a b then b else a)"

definition Math_min :: "jsnum list \<Rightarrow> jsnum" where
  "Math_min vs = foldl Math_min2 PInf vs"

definition Math_max :: "jsnum list \<Rightarrow> jsnum" where
  "Math_max vs = foldl Math_max2 NInf vs"

text \<open>A number in a boolean position: \<open>NaN\<close> and zero are falsy.\<close>

definition falsyNumber :: "jsnum \<Rightarrow> bool" where
  "falsyNumber n = (n = NaN \<or> n = Fin 0)"

section \<open>Array.prototype.slice\<close>

definition js_slice :: "'a list \<Rightarrow> int \<Rightarrow> int \<Rightarrow> 'a list" where
  "js_slice xs start fin =
     (let len = int (length xs);
          k = (if start < 0 then max (len + start) 0 else min start len);
          final = (if fin < 0 then max (len + fin) 0 else min fin len)
      in take (nat (final - k)) (drop (nat k) xs))"

section \<open>Array.prototype.sort\<close>

text \<open>
  A stable sort by a comparator that returns a number: \<open>a\<close> stays before \<open>b\<close> unless the
  comparator is positive on them (\<open>NaN\<close> counts as 0). For a consistent comparator this is
  the order every conforming engine produces; for an inconsistent one (a column that
  mixes numbers and texts, a mean that is \<open>NaN\<close>) the language leaves the order to the
  engine, and the order here need not be the engine's.
\<close>

fun sort_insert :: "('a \<Rightarrow> 'a \<Rightarrow> jsnum) \<Rightarrow> 'a \<Rightarrow> 'a list \<Rightarrow> 'a list" where
  "sort_insert cmp x [] = [x]"
| "sort_insert cmp x (y # ys) =
     (if js_gt (cmp x y) (Fin 0) then y # sort_insert cmp x ys else x # y # ys)"

definition js_sort :: "('a \<Rightarrow> 'a \<Rightarrow> jsnum) \<Rightarrow> 'a list \<Rightarrow> 'a list" where
  "js_sort cmp xs = foldr (sort_insert cmp) xs []"

section \<open>ProfilePage: robustParseValue\<close>

text \<open>A raw cell as the CSV reader or the spreadsheet decoder hands it over.\<close>

datatype raw = RNull | RUndefined | RNum jsnum | RStr string | RBool bool

text \<open>The characters \<open>/[^\d.,-]/g\<close> leaves in place.\<close>

definition keptChar :: "char \<Rightarrow> bool" where
  "keptChar c = (isDigit c \<or> c \<in> set ''.,-'')"

text \<open>\<open>.replace(',', '.')\<close>: a string pattern replaces its first occurrence only.\<close>

fun replaceFirstComma :: "string \<Rightarrow> string" where
  "replaceFirstComma [] = []"
| "replaceFirstComma (c # cs) = (if c = CHR '','' then CHR ''.'' # cs else c # replaceFirstComma cs)"

definition numericCandidate :: "string \<Rightarrow> string" where
  "numericCandidate clean = replaceFirstComma (filter keptChar clean)"

text \<open>The character class of \<open>/^[\d.,\s$%+-]+$/\<close> and the test of the pattern.\<close>

definition guardChar :: "char \<Rightarrow> bool" where
  "guardChar c = (isDigit c \<or> c \<in> set ''.,$%+-'' \<or> isSpace c)"

definition looksNumeric :: "string \<Rightarrow> bool" where
  "looksNumeric clean = (clean \<noteq> [] \<and> list_all guardChar clean)"

definition parseText :: "string \<Rightarrow> cell" where
  "parseText s =
     (let clean = trim s
      in if clean = [] then CText []
         else
           (let parsed = parseFloat (numericCandidate clean)
            in if parsed \<noteq> NaN \<and> looksNumeric clean then CNum parsed else CText clean))"

fun robustParseValue :: "raw \<Rightarrow> cell" where
  "robustParseValue RNull = CText []"
| "robustParseValue RUndefined = CText []"
| "robustParseValue (RNum n) = CNum n"
| "robustParseValue (RStr s) = parseText s"
| "robustParseValue (RBool b) = parseText (if b then ''true'' else ''false'')"

text \<open>The candidates \<open>parseFloat\<close> reads as a number: after an optional minus sign, a
  digit, or a point and a digit.\<close>

definition digitFirst :: "string \<Rightarrow> bool" where
  "digitFirst r =
     (case r of
        [] \<Rightarrow> False
      | c # r' \<Rightarrow> isDigit c \<or> (c = CHR ''.'' \<and> (case r' of [] \<Rightarrow> False | d # _ \<Rightarrow> isDigit d)))"

definition startsNumeric :: "string \<Rightarrow> bool" where
  "startsNumeric u =
     (case u of [] \<Rightarrow> False | c # r \<Rightarrow> if c = CHR ''-'' then digitFirst r else digitFirst u)"

text \<open>\<open>processDataRows\<close>: every raw cell goes through the parser, the keys keep their
  order.\<close>

definition processDataRows :: "(string \<times> raw) list list \<Rightarrow> DataRow list" where
  "processDataRows rawRows = map (map (\<lambda>(key, v). (key, robustParseValue v))) rawRows"

section \<open>AnalysisPage: metadata\<close>

definition numericCount :: "DataRow list \<Rightarrow> string \<Rightarrow> nat" where
  "numericCount data header =
     length (filter (\<lambda>row. case row_at row header of Some (CNum _) \<Rightarrow> True | _ \<Rightarrow> False) data)"

definition metadata :: "DataRow list \<Rightarrow> ColumnMetadata list" where
  "metadata data =
     (if length data = 0 then []
      else map (\<lambda>header.
             \<lparr>name = header,
              type = (if (of_nat (numericCount data header) :: rat) > of_nat (length data) / 2
                      then TNumber else TString)\<rparr>)
           (Object_keys (hd data)))"

section \<open>AnalysisPage: filteredData\<close>

definition matchesSearch :: "(jsnum \<Rightarrow> string) \<Rightarrow> string \<Rightarrow> DataRow \<Rightarrow> bool" where
  "matchesSearch ns searchTerm row =
     list_ex (\<lambda>val. str_includes (toLowerCase (toString ns (Some val))) (toLowerCase searchTerm))
       (Object_values row)"

text \<open>\<open>metadata.find(m => m.type === 'string')?.name\<close>.\<close>

definition firstStringCol :: "ColumnMetadata list \<Rightarrow> string option" where
  "firstStringCol md = map_option name (find (\<lambda>m. type m = TString) md)"

text \<open>\<open>stringCol && ...\<close>: an absent column and the empty column name are both falsy.\<close>

definition matchesCategory ::
  "(jsnum \<Rightarrow> string) \<Rightarrow> ColumnMetadata list \<Rightarrow> string \<Rightarrow> DataRow \<Rightarrow> bool" where
  "matchesCategory ns md globalCategory row =
     (globalCategory = ''All'' \<or>
      (case firstStringCol md of
         None \<Rightarrow> False
       | Some stringCol \<Rightarrow> stringCol \<noteq> [] \<and> toString ns (row_at row stringCol) = globalCategory))"

definition filteredData ::
  "(jsnum \<Rightarrow> string) \<Rightarrow> DataRow list \<Rightarrow> string \<Rightarrow> string \<Rightarrow> DataRow list" where
  "filteredData ns data searchTerm globalCategory =
     filter (\<lambda>row. matchesSearch ns searchTerm row \<and> matchesCategory ns (metadata data) globalCategory row)
       data"

text \<open>The two tests of \<open>filteredData\<close>, each as a filter of its own.\<close>

definition searchStage :: "(jsnum \<Rightarrow> string) \<Rightarrow> string \<Rightarrow> DataRow list \<Rightarrow> DataRow list" where
  "searchStage ns searchTerm rows = filter (matchesSearch ns searchTerm) rows"

definition categoryStage ::
  "(jsnum \<Rightarrow> string) \<Rightarrow> ColumnMetadata list \<Rightarrow> string \<Rightarrow> DataRow list \<Rightarrow> DataRow list" where
  "categoryStage ns md globalCategory rows = filter (matchesCategory ns md globalCategory) rows"

section \<open>DataTable: processedData\<close>

text \<open>
  The filter state: \<open>columnFilters\<close> and \<open>rangeFilters\<close> are objects keyed by column, here
  the lists of their entries in \<open>Object.keys\<close> order. A bound of a range is a string, or
  absent when only the other bound was ever typed.
\<close>

record rangeFilter =
  minBound :: "string option"
  maxBound :: "string option"

datatype direction = Asc | Desc

text \<open>\<open>if (min)\<close>: the bound is there and is not the empty string.\<close>

definition isSet :: "string option \<Rightarrow> bool" where
  "isSet b = (case b of None \<Rightarrow> False | Some s \<Rightarrow> s \<noteq> [])"

definition boundNumber :: "string option \<Rightarrow> jsnum" where
  "boundNumber b = (case b of None \<Rightarrow> NaN | Some s \<Rightarrow> stringToNumber s)"

definition applyColumnFilters ::
  "(jsnum \<Rightarrow> string) \<Rightarrow> (string \<times> string) list \<Rightarrow> DataRow list \<Rightarrow> DataRow list" where
  "applyColumnFilters ns columnFilters filtered0 =
     fold (\<lambda>(col, v) filtered.
             let val = toLowerCase v
             in if val \<noteq> []
                then filter (\<lambda>row. str_includes (toLowerCase (toString ns (row_at row col))) val) filtered
                else filtered)
       columnFilters filtered0"

definition applyRangeFilters :: "(string \<times> rangeFilter) list \<Rightarrow> DataRow list \<Rightarrow> DataRow list" where
  "applyRangeFilters rangeFilters filtered0 =
     fold (\<lambda>(col, r) filtered.
             let f1 = (if isSet (minBound r)
                       then filter (\<lambda>row. js_ge (toNumber (row_at row col)) (boundNumber (minBound r))) filtered
                       else filtered)
             in if isSet (maxBound r)
                then filter (\<lambda>row. js_le (toNumber (row_at row col)) (boundNumber (maxBound r))) f1
                else f1)
       rangeFilters filtered0"




text \<open>What one entry of the range filters and one entry of the column filters ask of a
  row.\<close>

definition rangeKeeps :: "(string \<times> rangeFilter) \<Rightarrow> DataRow \<Rightarrow> bool" where
  "rangeKeeps e row =
     ((isSet (minBound (snd e)) \<longrightarrow> js_ge (toNumber (row_at row (fst e))) (boundNumber (minBound (snd e))))
      \<and> (isSet (maxBound (snd e)) \<longrightarrow> js_le (toNumber (row_at row (fst e))) (boundNumber (maxBound (snd e)))))"

definition columnKeeps :: "(jsnum \<Rightarrow> string) \<Rightarrow> (string \<times> string) \<Rightarrow> DataRow \<Rightarrow> bool" where
  "columnKeeps ns e row =
     (toLowerCase (snd e) \<noteq> [] \<longrightarrow>
        str_includes (toLowerCase (toString ns (row_at row (fst e)))) (toLowerCase (snd e)))"

section \<open>DataTable: pagination\<close>

text \<open>\<open>totalPages\<close> and \<open>paginatedData\<close> of the rows that \<open>processedData\<close> returns.\<close>

definition PAGE_SIZE :: int where
  "PAGE_SIZE = 10"

definition totalPages :: "'a list \<Rightarrow> int" where
  "totalPages rows = \<lceil>(of_nat (length rows) :: rat) / of_int PAGE_SIZE\<rceil>"

definition paginatedData :: "'a list \<Rightarrow> int \<Rightarrow> 'a list" where
  "paginatedData rows currentPage =
     js_slice rows ((currentPage - 1) * PAGE_SIZE) (currentPage * PAGE_SIZE)"

section \<open>DataTable: exportCSV\<close>

text \<open>
  The table component: its two props and its state. \<open>exportCSV\<close> is a function of the
  component and can read all of them; \<open>processedData\<close> is computed from them at every
  render.
\<close>

record DataTable =
  dataProp :: "DataRow list"
  metadataProp :: "ColumnMetadata list"
  sortConfig :: "(string \<times> direction) option"
  currentPage :: int
  columnFilters :: "(string \<times> string) list"
  rangeFilters :: "(string \<times> rangeFilter) list"
  showFilters :: bool








section \<open>Objects keyed by data\<close>

text \<open>
  \<open>grouped\<close> is an object literal whose keys are cell texts. Its own properties are kept
  in insertion order. A key it does not own is looked up in \<open>Object.prototype\<close>; these
  are the names found there.
\<close>

datatype error = TypeError

type_synonym grouped = "(string \<times> jsnum list) list"

definition objectPrototypeKeys :: "string list" where
  "objectPrototypeKeys =
     [''constructor'', ''__proto__'', ''hasOwnProperty'', ''isPrototypeOf'',
      ''propertyIsEnumerable'', ''toLocaleString'', ''toString'', ''valueOf'',
      ''__defineGetter__'', ''__defineSetter__'', ''__lookupGetter__'', ''__lookupSetter__'']"

text \<open>
  \<open>if (!grouped[k]) grouped[k] = []; grouped[k].push(v)\<close>, and the same with
  \<open>grouped[k] = grouped[k] || []\<close>. For an inherited name \<open>grouped[k]\<close> is a truthy value
  that is not an array, and the call of its \<open>push\<close> throws.
\<close>

definition groupPush :: "grouped \<Rightarrow> string \<Rightarrow> jsnum \<Rightarrow> error + grouped" where
  "groupPush g k v =
     (case map_of g k of
        Some vs \<Rightarrow> Inr (map (\<lambda>(k', vs'). if k' = k then (k', vs' @ [v]) else (k', vs')) g)
      | None \<Rightarrow> if k \<in> set objectPrototypeKeys then Inl TypeError else Inr (g @ [(k, [v])]))"

text \<open>\<open>Object.keys\<close> of such an object: the array indices in ascending order first, then
  the other keys in insertion order.\<close>

definition isArrayIndex :: "string \<Rightarrow> bool" where
  "isArrayIndex k =
     (k \<noteq> [] \<and> list_all isDigit k \<and> (k = ''0'' \<or> hd k \<noteq> CHR ''0'')
      \<and> int (digitsVal k) < 2 ^ 32 - 1)"

definition groupedKeys :: "grouped \<Rightarrow> string list" where
  "groupedKeys g =
     (let ks = map fst g
      in sort_key digitsVal (filter isArrayIndex ks) @ filter (\<lambda>k. \<not> isArrayIndex k) ks)"

text \<open>\<open>grouped[key].reduce((a, b) => a + b, 0) / grouped[key].length\<close>.\<close>

definition groupMean :: "grouped \<Rightarrow> string \<Rightarrow> jsnum" where
  "groupMean g key =
     (let vs = (case map_of g key of None \<Rightarrow> [] | Some vs \<Rightarrow> vs)
      in js_div (foldl js_add (Fin 0) vs) (Fin (of_nat (length vs))))"

text \<open>The comparator \<open>(a, b) => b.value - a.value\<close> on \<open>{name, value}\<close>, here a pair.\<close>

definition byValueDesc :: "string \<times> jsnum \<Rightarrow> string \<times> jsnum \<Rightarrow> jsnum" where
  "byValueDesc a b = js_sub (snd b) (snd a)"

section \<open>ChartBuilder: chartData\<close>

text \<open>The histogram. A bin is the pair of its range label and its frequency.
  \<open>distribution[binIndex]\<close> is an element only for an integer index inside the array;
  otherwise it is \<open>undefined\<close>, and the increment of its \<open>frequency\<close> throws.\<close>

definition arrayIndex :: "nat \<Rightarrow> jsnum \<Rightarrow> nat option" where
  "arrayIndex len i =
     (case i of
        Fin q \<Rightarrow> if q = of_int \<lfloor>q\<rfloor> \<and> 0 \<le> q \<and> q < of_nat len then Some (nat \<lfloor>q\<rfloor>) else None
      | _ \<Rightarrow> None)"

definition countValue ::
  "jsnum \<Rightarrow> jsnum \<Rightarrow> jsnum \<Rightarrow> error + (string \<times> nat) list \<Rightarrow> error + (string \<times> nat) list" where
  "countValue mn step v acc =
     (case acc of
        Inl e \<Rightarrow> Inl e
      | Inr distribution \<Rightarrow>
          (let binIndex = Math_min2 (Math_floor (js_div (js_sub v mn) step)) (Fin (10 - 1))
           in case arrayIndex (length distribution) binIndex of
                None \<Rightarrow> Inl TypeError
              | Some i \<Rightarrow> Inr (distribution[i := (fst (distribution ! i), snd (distribution ! i) + 1)])))"

definition histogram :: "DataRow list \<Rightarrow> string \<Rightarrow> error + (string \<times> nat) list" where
  "histogram data yAxis =
     (let vals = filter (\<lambda>v. v \<noteq> NaN) (map (\<lambda>d. toNumber (row_at d yAxis)) data)
      in if length vals = 0 then Inr []
         else
           (let mn = Math_min vals;
                mx = Math_max vals;
                step = js_div (js_sub mx mn) (Fin 10);
                distribution =
                  map (\<lambda>i. (toFixed1 (js_add mn (js_mul (Fin (of_nat i)) step)) @ '' - '' @
                            toFixed1 (js_add mn (js_mul (Fin (of_nat (i + 1))) step)), 0 :: nat))
                    [0..<10]
            in fold (countValue mn step) vals (Inr distribution)))"

text \<open>The grouping of the bar, line and pie charts: the first 500 records, the group key
  \<open>String(d[xAxis] || 'N/A')\<close>, the value \<open>Number(d[yAxis]) || 0\<close>; then the means, sorted
  by value descending, and the first 15 of them.\<close>

definition orNA :: "cell option \<Rightarrow> cell option" where
  "orNA v =
     (case v of
        None \<Rightarrow> Some (CText ''N/A'')
      | Some (CText s) \<Rightarrow> if s = [] then Some (CText ''N/A'') else v
      | Some (CNum n) \<Rightarrow> if falsyNumber n then Some (CText ''N/A'') else v)"

definition orZero :: "jsnum \<Rightarrow> jsnum" where
  "orZero n = (if falsyNumber n then Fin 0 else n)"

definition chartGroup ::
  "(jsnum \<Rightarrow> string) \<Rightarrow> string \<Rightarrow> string \<Rightarrow> DataRow \<Rightarrow> error + grouped \<Rightarrow> error + grouped" where
  "chartGroup ns xAxis yAxis d acc =
     (case acc of
        Inl e \<Rightarrow> Inl e
      | Inr g \<Rightarrow> groupPush g (toString ns (orNA (row_at d xAxis))) (orZero (toNumber (row_at d yAxis))))"

definition chartData ::
  "(jsnum \<Rightarrow> string) \<Rightarrow> DataRow list \<Rightarrow> string \<Rightarrow> string \<Rightarrow> error + (string \<times> jsnum) list" where
  "chartData ns data xAxis yAxis =
     (case fold (chartGroup ns xAxis yAxis) (js_slice data 0 500) (Inr []) of
        Inl e \<Rightarrow> Inl e
      | Inr g \<Rightarrow>
          Inr (js_slice (js_sort byValueDesc (map (\<lambda>key. (key, groupMean g key)) (groupedKeys g))) 0 15))"

section \<open>Dashboard: chartData\<close>

text \<open>\<open>strCols[0]?.name\<close> and \<open>numCols[0]?.name\<close>.\<close>

definition firstColOf :: "coltype \<Rightarrow> ColumnMetadata list \<Rightarrow> string option" where
  "firstColOf t md = (case filter (\<lambda>m. type m = t) md of [] \<Rightarrow> None | m # _ \<Rightarrow> Some (name m))"

definition dashboardGroup ::
  "(jsnum \<Rightarrow> string) \<Rightarrow> string \<Rightarrow> string \<Rightarrow> DataRow \<Rightarrow> error + grouped \<Rightarrow> error + grouped" where
  "dashboardGroup ns stringCol numCol d acc =
     (case acc of
        Inl e \<Rightarrow> Inl e
      | Inr g \<Rightarrow> groupPush g (toString ns (row_at d stringCol)) (toNumber (row_at d numCol)))"

text \<open>The dashboard's grouping: the first 100 records, then the first 10 keys of
  \<open>grouped\<close>, their means, and the sort by value descending last.\<close>

definition dashboardChartData ::
  "(jsnum \<Rightarrow> string) \<Rightarrow> DataRow list \<Rightarrow> ColumnMetadata list \<Rightarrow> error + (string \<times> jsnum) list" where
  "dashboardChartData ns data md =
     (case (firstColOf TString md, firstColOf TNumber md) of
        (Some stringCol, Some numCol) \<Rightarrow>
          if stringCol = [] \<or> numCol = [] then Inr []
          else
            (case fold (dashboardGroup ns stringCol numCol) (js_slice data 0 100) (Inr []) of
               Inl e \<Rightarrow> Inl e
             | Inr g \<Rightarrow>
                 Inr (js_sort byValueDesc
                        (map (\<lambda>key. (key, groupMean g key)) (js_slice (groupedKeys g) 0 10))))
      | _ \<Rightarrow> Inr [])"

section \<open>Example data\<close>

text \<open>Eleven regions with one sale each, in increasing order of the sale.\<close>

definition salesRow :: "string \<Rightarrow> rat \<Rightarrow> DataRow" where
  "salesRow region sales = [(''region'', CText region), (''sales'', CNum (Fin sales))]"

definition elevenRegions :: "DataRow list" where
  "elevenRegions =
     [salesRow ''a'' 1, salesRow ''b'' 2, salesRow ''c'' 3, salesRow ''d'' 4, salesRow ''e'' 5,
      salesRow ''f'' 6, salesRow ''g'' 7, salesRow ''h'' 8, salesRow ''i'' 9, salesRow ''j'' 10,
      salesRow ''k'' 11]"


section \<open>Pagination: proofs\<close>

lemma js_slice_length:
  assumes "b = a + n" "0 \<le> n"
  shows "int (length (js_slice xs a b)) \<le> n"
proof -
  define len where "len = int (length xs)"
  define k where "k = (if a < 0 then max (len + a) 0 else min a len)"
  define final where "final = (if b < 0 then max (len + b) 0 else min b len)"
  have "0 \<le> len" by (simp add: len_def)
  then have "final - k \<le> n"
    using assms unfolding k_def final_def by (auto simp: max_def min_def)
  moreover have "js_slice xs a b = take (nat (final - k)) (drop (nat k) xs)"
    by (simp only: js_slice_def Let_def k_def final_def len_def)
  then have "length (js_slice xs a b) \<le> nat (final - k)"
    by (simp only: length_take min.cobounded2)
  ultimately show ?thesis using assms(2) by linarith
qed

lemma totalPages_div: "totalPages xs = (int (length xs) + 9) div 10"
proof -
  have "\<lceil>(of_int (int (length xs)) :: rat) / of_int 10\<rceil> = - ((- int (length xs)) div 10)"
    by (simp only: ceiling_divide_eq_div)
  also have "\<dots> = (int (length xs) + 9) div 10"
    by presburger
  finally show ?thesis
    by (simp add: totalPages_def PAGE_SIZE_def)
qed

lemma js_slice_page:
  "js_slice xs (int k * 10) ((1 + int k) * 10) = take 10 (drop (10 * k) xs)"
proof (cases "10 * k \<le> length xs")
  case True
  then have a: "nat (min (int k * 10) (int (length xs))) = 10 * k"
    by (simp add: min_def)
  have b: "nat (min ((1 + int k) * 10) (int (length xs)) - min (int k * 10) (int (length xs)))
           = min 10 (length xs - 10 * k)"
    using True by (simp add: min_def) linarith
  show ?thesis
    unfolding js_slice_def Let_def using a b by (simp add: take_drop min_def)
next
  case False
  then show ?thesis
    unfolding js_slice_def Let_def by (auto simp: min_def)
qed

lemma paginatedData_take_drop:
  "paginatedData xs (1 + int k) = take 10 (drop (10 * k) xs)"
  using js_slice_page [of xs k] by (simp add: paginatedData_def PAGE_SIZE_def)

lemma concat_pages_take:
  "concat (map (\<lambda>k. take 10 (drop (10 * k) xs)) [0..<n]) = take (10 * n) xs"
proof (induction n)
  case 0
  then show ?case by simp
next
  case (Suc n)
  have "take (10 * n) xs @ take 10 (drop (10 * n) xs) = take (10 * Suc n) xs"
    using take_add [of "10 * n" 10 xs] by (simp add: add.commute)
  with Suc show ?case by simp
qed

lemma upto_as_upt: "[1..int n] = map (\<lambda>k. 1 + int k) [0..<n]"
proof (induction n)
  case 0
  then show ?case by simp
next
  case (Suc n)
  have "[1..int (Suc n)] = [1..int n] @ [1 + int n]"
    using upto_rec2 [of 1 "1 + int n"] by (simp add: add.commute)
  with Suc show ?case by simp
qed

text \<open>
  C9. For every record sequence and every page number, the page slice has at most ten
  records; the number of pages is the length divided by ten, rounded up, and zero for the
  empty sequence; and the pages 1 to \<open>totalPages\<close>, concatenated, are the sequence.
\<close>

theorem pager_pages:
  "length (paginatedData xs p) \<le> 10
   \<and> totalPages xs = (int (length xs) + 9) div 10
   \<and> totalPages ([] :: 'a list) = 0
   \<and> concat (map (paginatedData xs) [1..totalPages xs]) = xs"
proof -
  have "int (length (paginatedData xs p)) \<le> 10"
    unfolding paginatedData_def PAGE_SIZE_def by (rule js_slice_length) (simp_all add: algebra_simps)
  then have len: "length (paginatedData xs p) \<le> 10" by simp
  have tp: "totalPages xs = (int (length xs) + 9) div 10"
    by (rule totalPages_div)
  have emp: "totalPages ([] :: 'a list) = 0"
    by (simp add: totalPages_div)
  have nonneg: "0 \<le> totalPages xs"
    unfolding tp by simp
  have cover: "length xs \<le> 10 * nat (totalPages xs)"
    unfolding tp by simp
  have "concat (map (paginatedData xs) [1..totalPages xs])
        = concat (map (\<lambda>k. take 10 (drop (10 * k) xs)) [0..<nat (totalPages xs)])"
    using upto_as_upt [of "nat (totalPages xs)"] nonneg
    by (simp add: paginatedData_take_drop comp_def)
  also have "\<dots> = xs"
    using cover by (simp add: concat_pages_take)
  finally show ?thesis using len tp emp by simp
qed

section \<open>robustParseValue: proofs\<close>

lemma in_set_dropWhile: "x \<in> set xs \<Longrightarrow> \<not> P x \<Longrightarrow> x \<in> set (dropWhile P xs)"
  by (induction xs) auto

lemma in_set_trim: "c \<in> set s \<Longrightarrow> \<not> isSpace c \<Longrightarrow> c \<in> set (trim s)"
  unfolding trim_def by (simp add: in_set_dropWhile)

lemma isLetter_not_space: "isLetter c \<Longrightarrow> \<not> isSpace c"
  unfolding isLetter_def isSpace_def Let_def by auto

lemma isLetter_not_digit: "isLetter c \<Longrightarrow> \<not> isDigit c"
  unfolding isLetter_def isDigit_def Let_def by auto

lemma isLetter_not_symbol: "isLetter c \<Longrightarrow> c \<notin> set ''.,$%+-''"
  unfolding isLetter_def Let_def by auto

lemma isLetter_not_guard: "isLetter c \<Longrightarrow> \<not> guardChar c"
  unfolding guardChar_def
  using isLetter_not_space isLetter_not_digit isLetter_not_symbol by blast

lemma parseText_unguarded:
  assumes "c \<in> set (trim s)" "\<not> guardChar c"
  shows "parseText s = CText (trim s)"
proof -
  from assms have "\<not> list_all guardChar (trim s)" by (auto simp: list_all_iff)
  then show ?thesis by (simp add: parseText_def looksNumeric_def Let_def)
qed

lemma parseText_letter:
  assumes "c \<in> set s" "isLetter c"
  shows "parseText s = CText (trim s)"
  using assms parseText_unguarded [of c s] in_set_trim [of c s]
  by (simp add: isLetter_not_guard isLetter_not_space)

lemma takeWhile_isDigit_Nil: "takeWhile isDigit u = [] \<longleftrightarrow> (case u of [] \<Rightarrow> True | c # _ \<Rightarrow> \<not> isDigit c)"
  by (cases u) auto

lemma keptChar_cases: "keptChar c \<Longrightarrow> isDigit c \<or> c = CHR ''.'' \<or> c = CHR '','' \<or> c = CHR ''-''"
  by (auto simp: keptChar_def)

lemma not_digit_syms [simp]: "\<not> isDigit (CHR ''.'')" "\<not> isDigit (CHR '','')" "\<not> isDigit (CHR ''-'')"
   "\<not> isDigit (CHR ''+'')" "\<not> isDigit (CHR ''I'')" "\<not> isDigit (CHR ''e'')" "\<not> isDigit (CHR ''E'')"
  by (simp_all add: isDigit_def)

lemma keptChar_not_space: "keptChar c \<Longrightarrow> \<not> isSpace c"
  by (auto simp: keptChar_def isSpace_def isDigit_def)

lemma trimStart_kept: "list_all keptChar u \<Longrightarrow> trimStart u = u"
  by (cases u) (auto simp: trimStart_def keptChar_not_space)

lemma noInfinity: "list_all keptChar v \<Longrightarrow> \<not> startsWith v ''Infinity''"
  by (cases v) (auto simp: keptChar_def isDigit_def)

lemma unsigned_None_iff:
  assumes "list_all keptChar v"
  shows "strUnsignedDecimalLiteral neg v = None \<longleftrightarrow> \<not> digitFirst v"
  using noInfinity [OF assms]
  by (cases v) (auto simp: strUnsignedDecimalLiteral_def digitFirst_def Let_def takeWhile_isDigit_Nil
       split: list.splits prod.splits if_splits)

lemma strDecimalLiteral_None_iff:
  assumes "list_all keptChar u"
  shows "strDecimalLiteral u = None \<longleftrightarrow> \<not> startsNumeric u"
proof (cases u)
  case Nil
  then show ?thesis
    using unsigned_None_iff [of "[]" False]
    by (simp add: strDecimalLiteral_def startsNumeric_def digitFirst_def)
next
  case (Cons c r)
  with assms have k: "keptChar c" "list_all keptChar r" by simp_all
  then have "c \<noteq> CHR ''+''" by (auto simp: keptChar_def isDigit_def)
  then show ?thesis
    using Cons unsigned_None_iff [OF k(2), of True] unsigned_None_iff [OF assms, of False]
    by (simp add: strDecimalLiteral_def startsNumeric_def)
qed

lemma replaceFirstComma_kept: "list_all keptChar u \<Longrightarrow> list_all keptChar (replaceFirstComma u)"
  by (induction u) (auto simp: keptChar_def)

lemma numericCandidate_kept: "list_all keptChar (numericCandidate s)"
  unfolding numericCandidate_def
  by (rule replaceFirstComma_kept) (simp add: list_all_iff)

lemma unsigned_not_NaN: "strUnsignedDecimalLiteral neg v = Some (x, r) \<Longrightarrow> x \<noteq> NaN"
  by (auto simp: strUnsignedDecimalLiteral_def Let_def split: if_splits prod.splits)

lemma strDecimalLiteral_not_NaN: "strDecimalLiteral u = Some (x, r) \<Longrightarrow> x \<noteq> NaN"
  by (auto simp: strDecimalLiteral_def split: list.splits if_splits dest: unsigned_not_NaN)

lemma parseFloat_candidate:
  "parseFloat (numericCandidate s) \<noteq> NaN \<longleftrightarrow> startsNumeric (numericCandidate s)"
proof -
  let ?u = "numericCandidate s"
  have k: "list_all keptChar ?u" by (rule numericCandidate_kept)
  show ?thesis
  proof (cases "strDecimalLiteral ?u")
    case None
    then show ?thesis
      using strDecimalLiteral_None_iff [OF k] by (simp add: parseFloat_def trimStart_kept [OF k])
  next
    case (Some p)
    then obtain x r where "strDecimalLiteral ?u = Some (x, r)" by (cases p) auto
    then show ?thesis
      using strDecimalLiteral_None_iff [OF k] strDecimalLiteral_not_NaN [of ?u x r]
      by (simp add: parseFloat_def trimStart_kept [OF k])
  qed
qed

text \<open>
  C1, as amended. For every cell text whose trimmed form is not empty and has only digits,
  points, commas, white space, \<open>$\<close>, \<open>%\<close>, \<open>+\<close> and \<open>-\<close>, the parser returns a number
  exactly when the stripped candidate starts, after an optional minus sign, with a digit or
  with a point and a digit (then the parse succeeds), and the trimmed text otherwise. For
  every text that has a letter, accented letters included, and more generally for every
  text whose trimmed form has a character outside that class, the parser returns the
  trimmed text.
\<close>

theorem robustParseValue_numeric:
  "(looksNumeric (trim s) \<longrightarrow>
      robustParseValue (RStr s) =
        (if startsNumeric (numericCandidate (trim s))
         then CNum (parseFloat (numericCandidate (trim s))) else CText (trim s))
      \<and> (startsNumeric (numericCandidate (trim s)) \<longrightarrow> parseFloat (numericCandidate (trim s)) \<noteq> NaN))
   \<and> ((\<exists>c \<in> set s. isLetter c) \<longrightarrow> robustParseValue (RStr s) = CText (trim s))
   \<and> ((\<exists>c \<in> set (trim s). \<not> guardChar c) \<longrightarrow> robustParseValue (RStr s) = CText (trim s))"
proof -
  have "robustParseValue (RStr s) =
        (if startsNumeric (numericCandidate (trim s))
         then CNum (parseFloat (numericCandidate (trim s))) else CText (trim s))"
    if "looksNumeric (trim s)"
    using that parseFloat_candidate [of "trim s"]
    by (auto simp: parseText_def Let_def looksNumeric_def)
  moreover have "robustParseValue (RStr s) = CText (trim s)" if "\<exists>c \<in> set s. isLetter c"
    using that parseText_letter by auto
  moreover have "robustParseValue (RStr s) = CText (trim s)" if "\<exists>c \<in> set (trim s). \<not> guardChar c"
    using that parseText_unguarded by auto
  ultimately show ?thesis
    using parseFloat_candidate [of "trim s"] by blast
qed

theorem robustParseValue_numeric_witness:
  "looksNumeric (trim '' $1 250.50 '')
   \<and> robustParseValue (RStr '' $1 250.50 '') = CNum (Fin (2501 / 2))
   \<and> looksNumeric (trim ''-%'')
   \<and> robustParseValue (RStr ''-%'') = CText ''-%''
   \<and> (\<exists>c \<in> set ''12 Main St ''. isLetter c)
   \<and> robustParseValue (RStr ''12 Main St '') = CText ''12 Main St''
   \<and> isLetter (CHR 0xF1)
   \<and> robustParseValue (RStr [CHR 0xF1, CHR ''5'']) = CText [CHR 0xF1, CHR ''5'']
   \<and> (\<exists>c \<in> set (trim ''7#''). \<not> guardChar c)
   \<and> robustParseValue (RStr ''7#'') = CText ''7#''"
  using robustParseValue_numeric [of "'' $1 250.50 ''"] robustParseValue_numeric [of "''-%''"]
    robustParseValue_numeric [of "''12 Main St ''"] robustParseValue_numeric [of "[CHR 0xF1, CHR ''5'']"]
    robustParseValue_numeric [of "''7#''"]
  by (simp add: trim_def isSpace_def looksNumeric_def guardChar_def isDigit_def isLetter_def
      numericCandidate_def keptChar_def startsNumeric_def digitFirst_def parseFloat_def trimStart_def
      strDecimalLiteral_def strUnsignedDecimalLiteral_def exponentPart_def digitsVal_def digitVal_def pow10_def)

text \<open>
  C1 as stated fails: the text \<open>$\<close> has only characters of the class, and the parser
  returns it as text.
\<close>

theorem guard_without_number_counterexample:
  "list_all guardChar (trim ''$'') \<and> robustParseValue (RStr ''$'') = CText ''$''"
  by (simp add: trim_def isSpace_def looksNumeric_def guardChar_def isDigit_def parseText_def
      numericCandidate_def keptChar_def parseFloat_def trimStart_def
      strDecimalLiteral_def strUnsignedDecimalLiteral_def)


section \<open>robustParseValue: the comma\<close>

lemma replaceFirstComma_split:
  "CHR '','' \<in> set u \<Longrightarrow>
     \<exists>pre post. u = pre @ CHR '','' # post \<and> CHR '','' \<notin> set pre
                \<and> replaceFirstComma u = pre @ CHR ''.'' # post"
proof (induction u)
  case Nil
  then show ?case by simp
next
  case (Cons c u)
  show ?case
  proof (cases "c = CHR '',''")
    case True
    then have "c # u = [] @ CHR '','' # u \<and> CHR '','' \<notin> set [] \<and> replaceFirstComma (c # u) = [] @ CHR ''.'' # u"
      by simp
    then show ?thesis by blast
  next
    case False
    with Cons obtain pre post where "u = pre @ CHR '','' # post" "CHR '','' \<notin> set pre"
      "replaceFirstComma u = pre @ CHR ''.'' # post" by auto
    with False have "c # u = (c # pre) @ CHR '','' # post \<and> CHR '','' \<notin> set (c # pre)
        \<and> replaceFirstComma (c # u) = (c # pre) @ CHR ''.'' # post" by simp
    then show ?thesis by blast
  qed
qed

lemma replaceFirstComma_append:
  "CHR '','' \<notin> set p \<Longrightarrow> replaceFirstComma (p @ CHR '','' # t) = p @ CHR ''.'' # t"
  by (induction p) auto

lemma isDigit_not_space: "isDigit c \<Longrightarrow> \<not> isSpace c"
  by (auto simp: isDigit_def isSpace_def)

lemma digits_no_comma: "list_all isDigit a \<Longrightarrow> CHR '','' \<notin> set a"
  by (auto simp: list_all_iff)

lemma exponentPart_kept: "list_all keptChar r \<Longrightarrow> exponentPart r = (0, r)"
  by (cases r) (auto simp: exponentPart_def keptChar_def isDigit_def)

lemma takeWhile_digits_tail:
  "list_all isDigit b \<Longrightarrow> r = [] \<or> \<not> isDigit (hd r) \<Longrightarrow> takeWhile isDigit (b @ r) = b"
  by (cases r) (auto simp: list_all_iff takeWhile_append2)

lemma dropWhile_digits_tail:
  "list_all isDigit b \<Longrightarrow> r = [] \<or> \<not> isDigit (hd r) \<Longrightarrow> dropWhile isDigit (b @ r) = r"
  by (cases r) (auto simp: list_all_iff dropWhile_append2)

lemma unsigned_point:
  assumes "a \<noteq> []" "list_all isDigit a" "list_all isDigit b" "r = [] \<or> \<not> isDigit (hd r)"
    and "list_all keptChar r"
  shows "strUnsignedDecimalLiteral neg (a @ CHR ''.'' # b @ r)
         = Some (Fin (if neg then - (of_nat (digitsVal a) + of_nat (digitsVal b) / 10 ^ length b)
                      else of_nat (digitsVal a) + of_nat (digitsVal b) / 10 ^ length b), r)"
proof -
  obtain c a' where a: "a = c # a'" using assms(1) by (cases a) auto
  with assms(2) have c: "isDigit c" by simp
  let ?u = "a @ CHR ''.'' # b @ r"
  have inf: "\<not> startsWith ?u ''Infinity''"
    using a c by (auto simp: isDigit_def)
  have ip: "takeWhile isDigit ?u = a" "dropWhile isDigit ?u = CHR ''.'' # b @ r"
    using assms(2) by (simp_all add: list_all_iff takeWhile_append2 dropWhile_append2 isDigit_def)
  show ?thesis
    unfolding strUnsignedDecimalLiteral_def Let_def
    using inf assms(1) takeWhile_digits_tail [OF assms(3,4)] dropWhile_digits_tail [OF assms(3,4)]
      exponentPart_kept [OF assms(5)]
    by (simp only: ip if_False list.case simp_thms if_True prod.case pow10_def) simp
qed

lemma parseFloat_point:
  assumes "a \<noteq> []" "list_all isDigit a" "list_all isDigit b" "r = [] \<or> \<not> isDigit (hd r)"
    and "list_all keptChar r"
  shows "parseFloat ((if neg then ''-'' else []) @ a @ CHR ''.'' # b @ r)
         = Fin (if neg then - (of_nat (digitsVal a) + of_nat (digitsVal b) / 10 ^ length b)
                else of_nat (digitsVal a) + of_nat (digitsVal b) / 10 ^ length b)"
proof -
  obtain c a' where a: "a = c # a'" using assms(1) by (cases a) auto
  with assms(2) have c: "isDigit c" by simp
  let ?u = "a @ CHR ''.'' # b @ r"
  note u = unsigned_point [OF assms, of neg]
  show ?thesis
  proof (cases neg)
    case True
    have "trimStart (''-'' @ ?u) = ''-'' @ ?u" by (simp add: trimStart_def isSpace_def)
    moreover have "strDecimalLiteral (''-'' @ ?u) = strUnsignedDecimalLiteral True ?u"
      by (simp add: strDecimalLiteral_def)
    ultimately show ?thesis using True u by (simp add: parseFloat_def)
  next
    case False
    have "trimStart ?u = ?u" using a c by (simp add: trimStart_def isDigit_not_space)
    moreover have "strDecimalLiteral ?u = strUnsignedDecimalLiteral False ?u"
      using a c by (auto simp: strDecimalLiteral_def isDigit_def)
    ultimately show ?thesis using False u by (simp add: parseFloat_def)
  qed
qed

lemma parseText_candidate:
  assumes "looksNumeric (trim s)" "numericCandidate (trim s) = u" "parseFloat u = Fin q"
  shows "robustParseValue (RStr s) = CNum (Fin q)"
  using assms by (simp add: parseText_def Let_def looksNumeric_def)

text \<open>
  C10, as amended. The comma normalisation replaces the first comma of the stripped text
  only: for every input with a comma, the candidate is the stripped text with that comma
  turned into a point and the later commas left in place, and an input that passes the
  character-class guard is the number \<open>parseFloat\<close> reads from that candidate, or stays
  text when the candidate does not start a number. Where the stripped text is an optional
  minus sign, digits, the comma, digits, and then nothing or something that starts with a
  non-digit (a further comma-separated group, say), the comma is read as the decimal
  point: the result has the first group as its integer part and the second as its
  fraction, so \<open>1,234\<close> and \<open>1,234,567\<close> are both 1.234. Where a point and digits come
  between the leading digits and the comma, the comma ends the parse: the result is the
  number before it, so \<open>1.000,50\<close> is 1.
\<close>

theorem comma_is_decimal_point:
  "(CHR '','' \<in> set s \<longrightarrow>
      (\<exists>pre post. filter keptChar (trim s) = pre @ CHR '','' # post \<and> CHR '','' \<notin> set pre
                  \<and> numericCandidate (trim s) = pre @ CHR ''.'' # post
                  \<and> (looksNumeric (trim s) \<longrightarrow>
                       robustParseValue (RStr s)
                         = (if startsNumeric (pre @ CHR ''.'' # post)
                            then CNum (parseFloat (pre @ CHR ''.'' # post)) else CText (trim s)))))
   \<and> (looksNumeric (trim s)
        \<and> filter keptChar (trim s) = (if neg then ''-'' else []) @ a @ CHR '','' # b @ r
        \<and> a \<noteq> [] \<and> list_all isDigit a \<and> list_all isDigit b \<and> (r = [] \<or> \<not> isDigit (hd r))
      \<longrightarrow> robustParseValue (RStr s)
            = CNum (Fin (if neg then - (of_nat (digitsVal a) + of_nat (digitsVal b) / 10 ^ length b)
                         else of_nat (digitsVal a) + of_nat (digitsVal b) / 10 ^ length b)))
   \<and> (looksNumeric (trim s)
        \<and> filter keptChar (trim s) = (if neg then ''-'' else []) @ a @ CHR ''.'' # b @ CHR '','' # r
        \<and> a \<noteq> [] \<and> list_all isDigit a \<and> list_all isDigit b
      \<longrightarrow> robustParseValue (RStr s)
            = CNum (Fin (if neg then - (of_nat (digitsVal a) + of_nat (digitsVal b) / 10 ^ length b)
                         else of_nat (digitsVal a) + of_nat (digitsVal b) / 10 ^ length b)))"
proof -
  have kept: "list_all keptChar (filter keptChar (trim s))" by (simp add: list_all_iff)
  have first: "\<exists>pre post. filter keptChar (trim s) = pre @ CHR '','' # post \<and> CHR '','' \<notin> set pre
                  \<and> numericCandidate (trim s) = pre @ CHR ''.'' # post
                  \<and> (looksNumeric (trim s) \<longrightarrow>
                       robustParseValue (RStr s)
                         = (if startsNumeric (pre @ CHR ''.'' # post)
                            then CNum (parseFloat (pre @ CHR ''.'' # post)) else CText (trim s)))"
    if c: "CHR '','' \<in> set s"
  proof -
    have "\<not> isSpace (CHR '','')" by (simp add: isSpace_def)
    then have "CHR '','' \<in> set (trim s)" using c by (rule in_set_trim [rotated])
    then have "CHR '','' \<in> set (filter keptChar (trim s))" by (simp add: keptChar_def)
    then obtain pre post where pp: "filter keptChar (trim s) = pre @ CHR '','' # post"
      "CHR '','' \<notin> set pre" "numericCandidate (trim s) = pre @ CHR ''.'' # post"
      unfolding numericCandidate_def using replaceFirstComma_split by blast
    have "robustParseValue (RStr s)
            = (if startsNumeric (pre @ CHR ''.'' # post)
               then CNum (parseFloat (pre @ CHR ''.'' # post)) else CText (trim s))"
      if "looksNumeric (trim s)"
      using that parseFloat_candidate [of "trim s"] unfolding pp(3)
      by (auto simp: parseText_def Let_def looksNumeric_def pp(3))
    with pp show ?thesis by blast
  qed
  have second: "robustParseValue (RStr s)
            = CNum (Fin (if neg then - (of_nat (digitsVal a) + of_nat (digitsVal b) / 10 ^ length b)
                         else of_nat (digitsVal a) + of_nat (digitsVal b) / 10 ^ length b))"
    if g: "looksNumeric (trim s)"
      and f: "filter keptChar (trim s) = (if neg then ''-'' else []) @ a @ CHR '','' # b @ r"
      and a: "a \<noteq> []" "list_all isDigit a" and b: "list_all isDigit b"
      and r: "r = [] \<or> \<not> isDigit (hd r)"
  proof -
    have kr: "list_all keptChar r" using kept unfolding f by simp
    have "CHR '','' \<notin> set ((if neg then ''-'' else []) @ a)"
      using digits_no_comma [OF a(2)] by simp
    then have cand: "numericCandidate (trim s) = (if neg then ''-'' else []) @ a @ CHR ''.'' # b @ r"
      unfolding numericCandidate_def f
      using replaceFirstComma_append [of "(if neg then ''-'' else []) @ a" "b @ r"] by simp
    show ?thesis
      using g cand parseFloat_point [OF a b r kr, of neg] by (rule parseText_candidate)
  qed
  have third: "robustParseValue (RStr s)
            = CNum (Fin (if neg then - (of_nat (digitsVal a) + of_nat (digitsVal b) / 10 ^ length b)
                         else of_nat (digitsVal a) + of_nat (digitsVal b) / 10 ^ length b))"
    if g: "looksNumeric (trim s)"
      and f: "filter keptChar (trim s) = (if neg then ''-'' else []) @ a @ CHR ''.'' # b @ CHR '','' # r"
      and a: "a \<noteq> []" "list_all isDigit a" and b: "list_all isDigit b"
  proof -
    have kr: "list_all keptChar (CHR ''.'' # r)" using kept unfolding f by (simp add: keptChar_def)
    have nd: "CHR ''.'' # r = [] \<or> \<not> isDigit (hd (CHR ''.'' # r))" by (simp add: isDigit_def)
    have "CHR '','' \<notin> set ((if neg then ''-'' else []) @ a @ CHR ''.'' # b)"
      using digits_no_comma [OF a(2)] digits_no_comma [OF b] by simp
    then have cand: "numericCandidate (trim s)
                     = (if neg then ''-'' else []) @ a @ CHR ''.'' # b @ CHR ''.'' # r"
      unfolding numericCandidate_def f
      using replaceFirstComma_append [of "(if neg then ''-'' else []) @ a @ CHR ''.'' # b" r] by simp
    show ?thesis
      using g cand parseFloat_point [OF a b nd kr, of neg] by (rule parseText_candidate)
  qed
  show ?thesis using first second third by blast
qed

lemmas parser_eval = trim_def isSpace_def looksNumeric_def guardChar_def isDigit_def
  numericCandidate_def keptChar_def parseText_def parseFloat_def trimStart_def
  strDecimalLiteral_def strUnsignedDecimalLiteral_def exponentPart_def digitsVal_def digitVal_def
  pow10_def

theorem comma_is_decimal_point_witness:
  "numericCandidate (trim ''1,234,567'') = ''1.234,567''
   \<and> robustParseValue (RStr ''1,234,567'') = CNum (Fin (1234 / 1000))
   \<and> robustParseValue (RStr ''1,234'') = CNum (Fin (1234 / 1000))
   \<and> robustParseValue (RStr '' $1,234.50 '') = CNum (Fin (1234 / 1000))
   \<and> robustParseValue (RStr ''-1,5 %'') = CNum (Fin (- (15 / 10)))
   \<and> robustParseValue (RStr ''1.000,50'') = CNum (Fin 1)"
proof -
  have t: "trim ''1,234,567'' = ''1,234,567''" "trim ''1,234'' = ''1,234''"
    "trim '' $1,234.50 '' = ''$1,234.50''" "trim ''-1,5 %'' = ''-1,5 %''"
    "trim ''1.000,50'' = ''1.000,50''"
    by (simp_all add: trim_def isSpace_def)
  have d: "digitsVal ''1'' = 1" "digitsVal ''234'' = 234" "digitsVal ''5'' = 5" "digitsVal ''000'' = 0"
    by (simp_all add: digitsVal_def digitVal_def)
  have c: "numericCandidate (trim ''1,234,567'') = ''1.234,567''"
    by (simp add: t numericCandidate_def keptChar_def isDigit_def)
  have "robustParseValue (RStr ''1,234,567'') = CNum (Fin (1234 / 1000))"
    using comma_is_decimal_point [of "''1,234,567''" False "''1''" "''234''" "'',567''"]
    by (simp add: t d looksNumeric_def guardChar_def keptChar_def isDigit_def)
  moreover have "robustParseValue (RStr ''1,234'') = CNum (Fin (1234 / 1000))"
    using comma_is_decimal_point [of "''1,234''" False "''1''" "''234''" "[]"]
    by (simp add: t d looksNumeric_def guardChar_def keptChar_def isDigit_def)
  moreover have "robustParseValue (RStr '' $1,234.50 '') = CNum (Fin (1234 / 1000))"
    using comma_is_decimal_point [of "'' $1,234.50 ''" False "''1''" "''234''" "''.50''"]
    by (simp add: t d looksNumeric_def guardChar_def keptChar_def isDigit_def)
  moreover have "robustParseValue (RStr ''-1,5 %'') = CNum (Fin (- (15 / 10)))"
    using comma_is_decimal_point [of "''-1,5 %''" True "''1''" "''5''" "[]"]
    by (simp add: t d looksNumeric_def guardChar_def keptChar_def isDigit_def isSpace_def)
  moreover have "robustParseValue (RStr ''1.000,50'') = CNum (Fin 1)"
    using comma_is_decimal_point [of "''1.000,50''" False "''1''" "''000''" "''50''"]
    by (simp add: t d looksNumeric_def guardChar_def keptChar_def isDigit_def)
  ultimately show ?thesis using c by simp
qed

text \<open>
  C10 as stated fails: \<open>1.000,50\<close> and a lone comma pass the guard and contain a comma;
  the first is read as 1, with the comma ending the parse, and the second is not a number
  at all.
\<close>

theorem comma_not_decimal_counterexample:
  "looksNumeric (trim ''1.000,50'') \<and> CHR '','' \<in> set ''1.000,50''
   \<and> robustParseValue (RStr ''1.000,50'') = CNum (Fin 1)
   \<and> looksNumeric (trim '','') \<and> CHR '','' \<in> set '',''
   \<and> robustParseValue (RStr '','') = CText '',''"
  by (simp add: parser_eval)


section \<open>Metadata: proofs\<close>

lemma majority_rat: "(of_nat (length xs) / 2 < (of_nat k :: rat)) \<longleftrightarrow> length xs < 2 * k"
proof -
  have "(of_nat (length xs) / 2 < (of_nat k :: rat)) \<longleftrightarrow> (of_nat (length xs) :: rat) < of_nat (2 * k)"
    by (simp add: field_simps)
  then show ?thesis by (simp only: of_nat_less_iff)
qed

lemma numericCount_holds:
  "numericCount data c = length (filter (\<lambda>row. \<exists>n. map_of row c = Some (CNum n)) data)"
proof -
  have "(case map_of row c of Some (CNum n) \<Rightarrow> True | _ \<Rightarrow> False) \<longleftrightarrow> (\<exists>n. map_of row c = Some (CNum n))"
    for row :: DataRow
    by (auto split: option.splits cell.splits)
  then show ?thesis by (simp add: numericCount_def row_at_def)
qed

text \<open>
  C7. For a non-empty record set the metadata lists the columns of the first record, in
  their order, and a column is numeric exactly when strictly more than half of the records
  hold a number in it (the count is of the records whose value in that column is a
  number), and textual otherwise; at exactly half, one number in two records, it is
  textual.
\<close>

theorem metadata_numeric_majority:
  "data \<noteq> [] \<Longrightarrow>
     metadata data
       = map (\<lambda>c. \<lparr>name = c,
                    type = (if length data
                               < 2 * length (filter (\<lambda>row. \<exists>n. map_of row c = Some (CNum n)) data)
                            then TNumber else TString)\<rparr>)
           (map fst (hd data))
     \<and> (\<forall>m \<in> set (metadata data).
           (type m = TNumber
              \<longleftrightarrow> length data < 2 * length (filter (\<lambda>row. \<exists>n. map_of row (name m) = Some (CNum n)) data))
         \<and> (type m = TString
              \<longleftrightarrow> 2 * length (filter (\<lambda>row. \<exists>n. map_of row (name m) = Some (CNum n)) data) \<le> length data))"
proof -
  assume ne: "data \<noteq> []"
  have eq: "metadata data
       = map (\<lambda>c. \<lparr>name = c,
                    type = (if length data
                               < 2 * length (filter (\<lambda>row. \<exists>n. map_of row c = Some (CNum n)) data)
                            then TNumber else TString)\<rparr>)
           (map fst (hd data))"
    using ne by (simp add: metadata_def majority_rat Object_keys_def numericCount_holds)
  have "(type m = TNumber
              \<longleftrightarrow> length data < 2 * length (filter (\<lambda>row. \<exists>n. map_of row (name m) = Some (CNum n)) data))
         \<and> (type m = TString
              \<longleftrightarrow> 2 * length (filter (\<lambda>row. \<exists>n. map_of row (name m) = Some (CNum n)) data) \<le> length data)"
    if "m \<in> set (metadata data)" for m
    using that unfolding eq by (auto split: if_splits)
  with eq show ?thesis by blast
qed

theorem metadata_numeric_majority_witness:
  "processDataRows [[(''name'', RStr ''Ana''), (''age'', RStr ''30'')],
                    [(''name'', RStr ''Luis''), (''age'', RStr ''abc'')]]
     = [[(''name'', CText ''Ana''), (''age'', CNum (Fin 30))],
        [(''name'', CText ''Luis''), (''age'', CText ''abc'')]]
   \<and> length (filter (\<lambda>row. \<exists>n. map_of row ''age'' = Some (CNum n))
        [[(''name'', CText ''Ana''), (''age'', CNum (Fin 30))],
         [(''name'', CText ''Luis''), (''age'', CText ''abc'')]]) = 1
   \<and> metadata [[(''name'', CText ''Ana''), (''age'', CNum (Fin 30))],
        [(''name'', CText ''Luis''), (''age'', CText ''abc'')]]
     = [\<lparr>name = ''name'', type = TString\<rparr>, \<lparr>name = ''age'', type = TString\<rparr>]
   \<and> metadata [[(''name'', CText ''Ana''), (''age'', CNum (Fin 30))],
        [(''name'', CText ''Luis''), (''age'', CText ''abc'')],
        [(''name'', CText ''Eva''), (''age'', CNum (Fin 41))]]
     = [\<lparr>name = ''name'', type = TString\<rparr>, \<lparr>name = ''age'', type = TNumber\<rparr>]"
proof -
  have p: "processDataRows [[(''name'', RStr ''Ana''), (''age'', RStr ''30'')],
                    [(''name'', RStr ''Luis''), (''age'', RStr ''abc'')]]
     = [[(''name'', CText ''Ana''), (''age'', CNum (Fin 30))],
        [(''name'', CText ''Luis''), (''age'', CText ''abc'')]]"
    by (simp add: processDataRows_def parseText_def trim_def isSpace_def looksNumeric_def guardChar_def
      isDigit_def numericCandidate_def keptChar_def parseFloat_def trimStart_def
      strDecimalLiteral_def strUnsignedDecimalLiteral_def exponentPart_def digitsVal_def digitVal_def
      pow10_def)
  have two: "metadata [[(''name'', CText ''Ana''), (''age'', CNum (Fin 30))],
        [(''name'', CText ''Luis''), (''age'', CText ''abc'')]]
     = [\<lparr>name = ''name'', type = TString\<rparr>, \<lparr>name = ''age'', type = TString\<rparr>]"
    using metadata_numeric_majority [of "[[(''name'', CText ''Ana''), (''age'', CNum (Fin 30))],
        [(''name'', CText ''Luis''), (''age'', CText ''abc'')]]"]
    by simp
  have three: "metadata [[(''name'', CText ''Ana''), (''age'', CNum (Fin 30))],
        [(''name'', CText ''Luis''), (''age'', CText ''abc'')],
        [(''name'', CText ''Eva''), (''age'', CNum (Fin 41))]]
     = [\<lparr>name = ''name'', type = TString\<rparr>, \<lparr>name = ''age'', type = TNumber\<rparr>]"
    using metadata_numeric_majority [of "[[(''name'', CText ''Ana''), (''age'', CNum (Fin 30))],
        [(''name'', CText ''Luis''), (''age'', CText ''abc'')],
        [(''name'', CText ''Eva''), (''age'', CNum (Fin 41))]]"]
    by simp
  show ?thesis using p two three by simp
qed

section \<open>Filters: proofs\<close>

lemma fold_filters:
  assumes "\<And>e xs. e \<in> set es \<Longrightarrow> step e xs = filter (P e) xs"
  shows "fold step es xs = filter (\<lambda>x. list_all (\<lambda>e. P e x) es) xs"
  using assms
proof (induction es arbitrary: xs)
  case Nil
  then show ?case by simp
next
  case (Cons e es)
  have "fold step (e # es) xs = fold step es (filter (P e) xs)"
    using Cons.prems by simp
  also have "\<dots> = filter (\<lambda>x. list_all (\<lambda>e. P e x) es) (filter (P e) xs)"
    using Cons by simp
  also have "\<dots> = filter (\<lambda>x. list_all (\<lambda>e. P e x) (e # es)) xs"
    by (simp add: conj_commute)
  finally show ?case .
qed

lemma applyRangeFilters_filter:
  "applyRangeFilters rf rows = filter (\<lambda>row. list_all (\<lambda>e. rangeKeeps e row) rf) rows"
  unfolding applyRangeFilters_def
  by (rule fold_filters) (auto simp: rangeKeeps_def Let_def conj_commute intro: filter_cong)

lemma applyColumnFilters_filter:
  "applyColumnFilters ns cf rows = filter (\<lambda>row. list_all (\<lambda>e. columnKeeps ns e row) cf) rows"
  unfolding applyColumnFilters_def
  by (rule fold_filters) (auto simp: columnKeeps_def Let_def)

lemma js_le_NaN [simp]: "\<not> js_le NaN b" "\<not> js_le a NaN"
  by (cases a; simp)+

lemma js_ge_NaN [simp]: "\<not> js_ge NaN b" "\<not> js_ge a NaN"
  by (simp_all add: js_ge_def)

text \<open>
  C2, as amended. The range filters keep exactly the records that satisfy every entry: the
  numeric cast of the value is at least the minimum when a minimum is set, and at most the
  maximum when a maximum is set. A record whose cast is \<open>NaN\<close> in a column with a bound
  set is dropped.
\<close>

theorem range_filter_keeps:
  "applyRangeFilters rf rows = filter (\<lambda>row. list_all (\<lambda>e. rangeKeeps e row) rf) rows
   \<and> ((col, r) \<in> set rf \<and> (isSet (minBound r) \<or> isSet (maxBound r)) \<and> toNumber (row_at row col) = NaN
        \<longrightarrow> row \<notin> set (applyRangeFilters rf rows))"
proof -
  have "row \<notin> set (applyRangeFilters rf rows)"
    if "(col, r) \<in> set rf" "isSet (minBound r) \<or> isSet (maxBound r)" "toNumber (row_at row col) = NaN"
  proof -
    have "\<not> rangeKeeps (col, r) row" using that(2,3) by (auto simp: rangeKeeps_def)
    then have "\<not> list_all (\<lambda>e. rangeKeeps e row) rf" using that(1) by (auto simp: list_all_iff)
    then show ?thesis by (simp add: applyRangeFilters_filter)
  qed
  then show ?thesis using applyRangeFilters_filter by blast
qed


lemmas js_eval = trim_def trimStart_def isSpace_def isDigit_def digitVal_def digitsVal_def
  exponentPart_def pow10_def strUnsignedDecimalLiteral_def strDecimalLiteral_def parseFloat_def
  baseDigit_def nonDecimalLiteral_def stringToNumber_def toNumber_def toString_def
  row_at_def Object_keys_def Object_values_def toLowerCase_def char_of_def

theorem range_filter_keeps_witness:
  "applyRangeFilters [(''age'', \<lparr>minBound = Some ''18'', maxBound = None\<rparr>)]
     [[(''age'', CNum (Fin 17))], [(''age'', CNum (Fin 25))], [(''age'', CText ''n/a'')]]
   = [[(''age'', CNum (Fin 25))]]
   \<and> toNumber (row_at [(''age'', CText ''n/a'')] ''age'') = NaN
   \<and> [(''age'', CText ''n/a'')] \<notin> set (applyRangeFilters [(''age'', \<lparr>minBound = Some ''18'', maxBound = None\<rparr>)]
     [[(''age'', CNum (Fin 17))], [(''age'', CNum (Fin 25))], [(''age'', CText ''n/a'')]])"
  using range_filter_keeps [of "[(''age'', \<lparr>minBound = Some ''18'', maxBound = None\<rparr>)]"
     "[[(''age'', CNum (Fin 17))], [(''age'', CNum (Fin 25))], [(''age'', CText ''n/a'')]]"
     "''age''" "\<lparr>minBound = Some ''18'', maxBound = None\<rparr>" "[(''age'', CText ''n/a'')]"]
  by (simp add: rangeKeeps_def isSet_def boundNumber_def js_ge_def js_eval)

text \<open>
  C2 as stated fails: not every non-numeric value casts to \<open>NaN\<close>. The empty text, which
  the parser stores for an empty cell, casts to 0, and the record is kept under a maximum
  of 10.
\<close>

theorem empty_text_in_range_counterexample:
  "robustParseValue RNull = CText []
   \<and> toNumber (Some (CText [])) = Fin 0
   \<and> applyRangeFilters [(''age'', \<lparr>minBound = None, maxBound = Some ''10''\<rparr>)] [[(''age'', CText [])]]
     = [[(''age'', CText [])]]"
  by (simp add: applyRangeFilters_def isSet_def boundNumber_def js_eval)

lemma list_all_mset_cong: "mset xs = mset ys \<Longrightarrow> list_all P xs = list_all P ys"
  by (auto simp: list_all_iff dest: mset_eq_setD)

lemma filter_comp_commute: "filter P \<circ> filter Q = filter Q \<circ> filter P"
  by (auto simp: fun_eq_iff conj_commute intro: filter_cong)

text \<open>
  C8. The four filters (search, category, column text filters, range filters), applied in
  any order and with the entries of the column and range filters in any order, give the
  result of the code's own order: the records that pass all of them.
\<close>

theorem filters_order_independent:
  assumes "mset stages = mset [searchStage ns term, categoryStage ns (metadata data) cat,
                               applyColumnFilters ns cf', applyRangeFilters rf']"
    and "mset cf' = mset cf" and "mset rf' = mset rf"
  shows "fold (\<lambda>stage rows. stage rows) stages data
           = applyRangeFilters rf (applyColumnFilters ns cf (filteredData ns data term cat))
         \<and> fold (\<lambda>stage rows. stage rows) stages data
           = filter (\<lambda>row. matchesSearch ns term row \<and> matchesCategory ns (metadata data) cat row
                          \<and> list_all (\<lambda>e. columnKeeps ns e row) cf
                          \<and> list_all (\<lambda>e. rangeKeeps e row) rf) data"
proof -
  let ?p1 = "matchesSearch ns term" and ?p2 = "matchesCategory ns (metadata data) cat"
  let ?p3 = "\<lambda>row. list_all (\<lambda>e. columnKeeps ns e row) cf"
  let ?p4 = "\<lambda>row. list_all (\<lambda>e. rangeKeeps e row) rf"
  let ?canon = "[filter ?p1, filter ?p2, filter ?p3, filter ?p4]"
  have s1: "searchStage ns term = filter ?p1" by (simp add: fun_eq_iff searchStage_def)
  have s2: "categoryStage ns (metadata data) cat = filter ?p2" by (simp add: fun_eq_iff categoryStage_def)
  have s3: "applyColumnFilters ns cf' = filter ?p3"
    using list_all_mset_cong [OF assms(2)] by (simp add: fun_eq_iff applyColumnFilters_filter)
  have s4: "applyRangeFilters rf' = filter ?p4"
    using list_all_mset_cong [OF assms(3)] by (simp add: fun_eq_iff applyRangeFilters_filter)
  have m: "mset ?canon = mset stages" using assms(1) by (simp only: s1 s2 s3 s4)
  have comm: "(\<lambda>stage rows. stage rows) x \<circ> (\<lambda>stage rows. stage rows) y
              = (\<lambda>stage rows. stage rows) y \<circ> (\<lambda>stage rows. stage rows) x"
    if "x \<in> set ?canon" "y \<in> set ?canon" for x y
  proof -
    from that obtain P Q where "x = filter P" "y = filter Q" by auto
    then show ?thesis using filter_comp_commute [of P Q] by simp
  qed
  have "fold (\<lambda>stage rows. stage rows) ?canon = fold (\<lambda>stage rows. stage rows) stages"
    using comm m by (rule fold_multiset_equiv)
  then have "fold (\<lambda>stage rows. stage rows) stages data = fold (\<lambda>stage rows. stage rows) ?canon data"
    by simp
  also have "\<dots> = filter ?p4 (filter ?p3 (filter ?p2 (filter ?p1 data)))" by simp
  finally have f: "fold (\<lambda>stage rows. stage rows) stages data
                   = filter ?p4 (filter ?p3 (filter ?p2 (filter ?p1 data)))" .
  have a: "filter ?p4 (filter ?p3 (filter ?p2 (filter ?p1 data)))
           = applyRangeFilters rf (applyColumnFilters ns cf (filteredData ns data term cat))"
    by (simp add: applyRangeFilters_filter applyColumnFilters_filter filteredData_def conj_commute
        cong: filter_cong)
  have b: "filter ?p4 (filter ?p3 (filter ?p2 (filter ?p1 data)))
           = filter (\<lambda>row. ?p1 row \<and> ?p2 row \<and> ?p3 row \<and> ?p4 row) data"
    by (auto intro: filter_cong)
  show ?thesis using f a b by simp
qed


theorem filters_order_independent_witness:
  "fold (\<lambda>stage rows. stage rows)
     [applyRangeFilters [(''age'', \<lparr>minBound = Some ''18'', maxBound = None\<rparr>)],
      applyColumnFilters integerToString [(''age'', ''3''), (''city'', ''LI'')],
      categoryStage integerToString
        (metadata [[(''city'', CText ''Lima''), (''age'', CNum (Fin 30))],
                   [(''city'', CText ''Quito''), (''age'', CNum (Fin 17))],
                   [(''city'', CText ''Lima''), (''age'', CText ''n/a'')]]) ''Lima'',
      searchStage integerToString ''lim'']
     [[(''city'', CText ''Lima''), (''age'', CNum (Fin 30))],
      [(''city'', CText ''Quito''), (''age'', CNum (Fin 17))],
      [(''city'', CText ''Lima''), (''age'', CText ''n/a'')]]
   = [[(''city'', CText ''Lima''), (''age'', CNum (Fin 30))]]"
proof -
  let ?data = "[[(''city'', CText ''Lima''), (''age'', CNum (Fin 30))],
      [(''city'', CText ''Quito''), (''age'', CNum (Fin 17))],
      [(''city'', CText ''Lima''), (''age'', CText ''n/a'')]]"
  let ?rf = "[(''age'', \<lparr>minBound = Some ''18'', maxBound = None\<rparr>)]"
  let ?cf' = "[(''age'', ''3''), (''city'', ''LI'')]"
  let ?cf = "[(''city'', ''LI''), (''age'', ''3'')]"
  let ?s1 = "searchStage integerToString ''lim''"
  let ?s2 = "categoryStage integerToString (metadata ?data) ''Lima''"
  let ?s3 = "applyColumnFilters integerToString ?cf'"
  let ?s4 = "applyRangeFilters ?rf"
  have h1: "mset [?s4, ?s3, ?s2, ?s1] = mset [?s1, ?s2, ?s3, ?s4]"
    by (simp only: mset.simps add_mset_commute)
  have h2: "mset ?cf' = mset ?cf" by (simp only: mset.simps add_mset_commute)
  have h3: "mset ?rf = mset ?rf" by simp
  have "applyRangeFilters ?rf (applyColumnFilters integerToString ?cf
          (filteredData integerToString ?data ''lim'' ''Lima''))
        = [[(''city'', CText ''Lima''), (''age'', CNum (Fin 30))]]"
    by code_simp
  then show ?thesis
    using filters_order_independent [OF h1 h2 h3] by simp
qed


section \<open>Export: proofs\<close>















section \<open>Aggregation: proofs\<close>

lemma fold_countValue_Inl: "fold (countValue mn step) vs (Inl e) = Inl e"
  by (induction vs) (simp_all add: countValue_def)

lemma Math_min2_same: "Math_min2 (Fin q) (Fin q) = Fin q"
  by (simp add: Math_min2_def)

lemma foldl_min_same: "foldl Math_min2 (Fin q) (replicate n (Fin q)) = Fin q"
  by (induction n) (simp_all add: Math_min2_def)

lemma foldl_max_same: "foldl Math_max2 (Fin q) (replicate n (Fin q)) = Fin q"
  by (induction n) (simp_all add: Math_max2_def)

lemma Math_min_replicate: "Math_min (replicate (Suc n) (Fin q)) = Fin q"
  by (simp add: Math_min_def Math_min2_def foldl_min_same)

lemma Math_max_replicate: "Math_max (replicate (Suc n) (Fin q)) = Fin q"
  by (simp add: Math_max_def Math_max2_def foldl_max_same)

lemma countValue_zero_step:
  "countValue (Fin q) (Fin 0) (Fin q) (Inr bins) = Inl TypeError"
  by (simp add: countValue_def js_sub_def Math_min2_def arrayIndex_def)

lemma fold_countValue_zero_step:
  "vs \<noteq> [] \<Longrightarrow> hd vs = Fin q \<Longrightarrow> fold (countValue (Fin q) (Fin 0)) vs (Inr bins) = Inl TypeError"
  by (cases vs) (simp_all add: countValue_zero_step fold_countValue_Inl)

text \<open>
  C6. The histogram does not count a column whose numeric values are all the same finite
  number (a single record, a constant column): the bin width is zero, the bin index of the
  first value is \<open>NaN\<close>, and the increment of the bin throws. The claim asks for bins
  that sum to the number of values.
\<close>

theorem histogram_constant_column_throws:
  assumes "data \<noteq> []" and "\<forall>d \<in> set data. toNumber (row_at d yAxis) = Fin q"
  shows "histogram data yAxis = Inl TypeError"
proof -
  define vals where "vals = filter (\<lambda>v. v \<noteq> NaN) (map (\<lambda>d. toNumber (row_at d yAxis)) data)"
  obtain n where n: "length data = Suc n" using assms(1) by (cases data) auto
  have "map (\<lambda>d. toNumber (row_at d yAxis)) data = replicate (length data) (Fin q)"
    using assms(2) by (simp add: map_replicate_const [symmetric] cong: map_cong)
  then have vals: "vals = replicate (Suc n) (Fin q)"
    using n by (simp add: vals_def)
  have ne: "vals \<noteq> []" "hd vals = Fin q" "length vals \<noteq> 0" using vals by simp_all
  have mn: "Math_min vals = Fin q" unfolding vals by (rule Math_min_replicate)
  have mx: "Math_max vals = Fin q" unfolding vals by (rule Math_max_replicate)
  have step: "js_div (js_sub (Fin q) (Fin q)) (Fin 10) = Fin 0" by (simp add: js_sub_def)
  have f: "fold (countValue (Fin q) (Fin 0)) vals (Inr bins) = Inl TypeError" for bins
    using ne(1,2) by (rule fold_countValue_zero_step)
  show ?thesis
    unfolding histogram_def vals_def [symmetric] Let_def mn mx step f
    using ne(3) by simp
qed

theorem histogram_constant_column_throws_witness:
  "[[(''age'', CNum (Fin 5))], [(''age'', CNum (Fin 5))]] \<noteq> []
   \<and> map (\<lambda>d. toNumber (row_at d ''age'')) [[(''age'', CNum (Fin 5))], [(''age'', CNum (Fin 5))]]
       = [Fin 5, Fin 5]
   \<and> histogram [[(''age'', CNum (Fin 5))], [(''age'', CNum (Fin 5))]] ''age'' = Inl TypeError"
proof -
  have v: "map (\<lambda>d. toNumber (row_at d ''age'')) [[(''age'', CNum (Fin 5))], [(''age'', CNum (Fin 5))]]
       = [Fin 5, Fin 5]"
    by code_simp
  then have "\<forall>d \<in> set [[(''age'', CNum (Fin 5))], [(''age'', CNum (Fin 5))]].
             toNumber (row_at d ''age'') = Fin 5"
    by simp
  then show ?thesis
    using v histogram_constant_column_throws [of "[[(''age'', CNum (Fin 5))], [(''age'', CNum (Fin 5))]]" "''age''" 5]
    by simp
qed

text \<open>
  C3. Two aggregations that raise: the histogram of a single record, and the grouping of a
  record whose group text is a name every object inherits.
\<close>

theorem aggregation_raises:
  "histogram [[(''sales'', CNum (Fin 5))]] ''sales'' = Inl TypeError
   \<and> chartData integerToString [[(''region'', CText ''constructor''), (''sales'', CNum (Fin 1))]]
        ''region'' ''sales'' = Inl TypeError"
  by code_simp


text \<open>
  C5. On eleven groups whose last has the highest mean, the dashboard's aggregation keeps
  the first ten keys and sorts them afterwards: the highest group is missing. The chart
  builder's aggregation sorts first and has it at the head. On a record without the group
  column and a record with a non-numeric value, the dashboard groups under \<open>undefined\<close>
  and averages to \<open>NaN\<close>, where the chart builder groups under \<open>N/A\<close> and counts 0.
\<close>

theorem dashboard_truncates_before_sorting:
  "metadata elevenRegions = [\<lparr>name = ''region'', type = TString\<rparr>, \<lparr>name = ''sales'', type = TNumber\<rparr>]
   \<and> dashboardChartData integerToString elevenRegions (metadata elevenRegions)
       = Inr [(''j'', Fin 10), (''i'', Fin 9), (''h'', Fin 8), (''g'', Fin 7), (''f'', Fin 6),
              (''e'', Fin 5), (''d'', Fin 4), (''c'', Fin 3), (''b'', Fin 2), (''a'', Fin 1)]
   \<and> chartData integerToString elevenRegions ''region'' ''sales''
       = Inr [(''k'', Fin 11), (''j'', Fin 10), (''i'', Fin 9), (''h'', Fin 8), (''g'', Fin 7),
              (''f'', Fin 6), (''e'', Fin 5), (''d'', Fin 4), (''c'', Fin 3), (''b'', Fin 2),
              (''a'', Fin 1)]
   \<and> dashboardChartData integerToString
         [salesRow ''x'' 1, [(''region'', CText ''x''), (''sales'', CText ''n/a'')], [(''sales'', CNum (Fin 2))]]
         [\<lparr>name = ''region'', type = TString\<rparr>, \<lparr>name = ''sales'', type = TNumber\<rparr>]
       = Inr [(''x'', NaN), (''undefined'', Fin 2)]
   \<and> chartData integerToString
         [salesRow ''x'' 1, [(''region'', CText ''x''), (''sales'', CText ''n/a'')], [(''sales'', CNum (Fin 2))]]
         ''region'' ''sales''
       = Inr [(''N/A'', Fin 2), (''x'', Fin (1 / 2))]"
  by code_simp


section \<open>Aggregation: further properties\<close>

lemma foldl_min_Fin: "foldl Math_min2 (Fin a) (map Fin qs) = Fin (fold min qs a)"
  by (induction qs arbitrary: a) (auto simp: Math_min2_def min_def)

lemma foldl_max_Fin: "foldl Math_max2 (Fin a) (map Fin qs) = Fin (fold max qs a)"
  by (induction qs arbitrary: a) (auto simp: Math_max2_def max_def)

lemma Math_min_Fin: "Math_min (map Fin (q # qs)) = Fin (fold min qs q)"
  by (simp add: Math_min_def Math_min2_def foldl_min_Fin)

lemma Math_max_Fin: "Math_max (map Fin (q # qs)) = Fin (fold max qs q)"
  by (simp add: Math_max_def Math_max2_def foldl_max_Fin)

lemma fold_min_le_init: "fold min qs (a::rat) \<le> a"
proof (induction qs arbitrary: a)
  case Nil
  then show ?case by simp
next
  case (Cons q qs)
  have "fold min qs (min q a) \<le> min q a" by (rule Cons.IH)
  then show ?case by simp
qed

lemma fold_min_le_elem: "x \<in> set qs \<Longrightarrow> fold min qs (a::rat) \<le> x"
proof (induction qs arbitrary: a)
  case Nil
  then show ?case by simp
next
  case (Cons q qs)
  show ?case
  proof (cases "x = q")
    case True
    have "fold min qs (min q a) \<le> min q a" by (rule fold_min_le_init)
    then show ?thesis using True by simp
  next
    case False
    with Cons show ?thesis by simp
  qed
qed

lemma fold_max_ge_init: "(a::rat) \<le> fold max qs a"
proof (induction qs arbitrary: a)
  case Nil
  then show ?case by simp
next
  case (Cons q qs)
  have "max q a \<le> fold max qs (max q a)" by (rule Cons.IH)
  then show ?case by simp
qed

lemma fold_max_ge_elem: "x \<in> set qs \<Longrightarrow> x \<le> fold max qs (a::rat)"
proof (induction qs arbitrary: a)
  case Nil
  then show ?case by simp
next
  case (Cons q qs)
  show ?case
  proof (cases "x = q")
    case True
    have "max q a \<le> fold max qs (max q a)" by (rule fold_max_ge_init)
    then show ?thesis using True by simp
  next
    case False
    with Cons show ?thesis by simp
  qed
qed

lemma countValue_in_range:
  assumes "0 < w" "lo \<le> q" "length bins = 10"
  shows "\<exists>i < 10. countValue (Fin lo) (Fin w) (Fin q) (Inr bins)
                    = Inr (bins[i := (fst (bins ! i), snd (bins ! i) + 1)])"
proof -
  define k where "k = min \<lfloor>(q - lo) / w\<rfloor> 9"
  have "0 \<le> (q - lo) / w" using assms(1,2) by simp
  then have k: "0 \<le> k" "k \<le> 9" by (simp_all add: k_def)
  have m: "Math_min2 (Math_floor (js_div (js_sub (Fin q) (Fin lo)) (Fin w))) (Fin (10 - 1))
           = Fin (of_int k)"
    using assms(1) by (auto simp: js_sub_def Math_min2_def k_def min_def)
  have "arrayIndex 10 (Fin (of_int k)) = Some (nat k)"
    using k by (simp add: arrayIndex_def)
  then have "countValue (Fin lo) (Fin w) (Fin q) (Inr bins)
             = Inr (bins[nat k := (fst (bins ! nat k), snd (bins ! nat k) + 1)])"
    unfolding countValue_def Let_def m using assms(3) by simp
  moreover have "nat k < 10" using k by simp
  ultimately show ?thesis by blast
qed

lemma sum_snd_update:
  assumes "i < length bins"
  shows "sum_list (map snd (bins[i := (fst (bins ! i), snd (bins ! i) + 1)]))
         = sum_list (map snd bins) + (1::nat)"
proof -
  have "map snd (bins[i := (fst (bins ! i), snd (bins ! i) + 1)]) = (map snd bins)[i := snd (bins ! i) + 1]"
    by (simp add: map_update)
  moreover have "sum_list ((map snd bins)[i := snd (bins ! i) + 1]) = sum_list (map snd bins) + 1"
    using assms by (simp add: sum_list_update)
  ultimately show ?thesis by simp
qed


lemma fold_countValue_counts:
  assumes "0 < w" "\<forall>q \<in> set qs. lo \<le> q" "length bins = 10"
  shows "\<exists>bins'. fold (countValue (Fin lo) (Fin w)) (map Fin qs) (Inr bins) = Inr bins'
                 \<and> length bins' = 10
                 \<and> sum_list (map snd bins') = sum_list (map snd bins) + length qs"
  using assms(2,3)
proof (induction qs arbitrary: bins)
  case Nil
  then show ?case by simp
next
  case (Cons q qs)
  from Cons.prems have q: "lo \<le> q" by simp
  obtain i where i: "i < 10"
    "countValue (Fin lo) (Fin w) (Fin q) (Inr bins) = Inr (bins[i := (fst (bins ! i), snd (bins ! i) + 1)])"
    using countValue_in_range [OF assms(1) q Cons.prems(2)] by blast
  let ?b = "bins[i := (fst (bins ! i), snd (bins ! i) + 1)]"
  have len: "length ?b = 10" using Cons.prems(2) by simp
  have s: "sum_list (map snd ?b) = sum_list (map snd bins) + 1"
    using i(1) Cons.prems(2) by (simp only: sum_snd_update)
  obtain bins' where b: "fold (countValue (Fin lo) (Fin w)) (map Fin qs) (Inr ?b) = Inr bins'"
    "length bins' = 10" "sum_list (map snd bins') = sum_list (map snd ?b) + length qs"
    using Cons.IH [OF _ len] Cons.prems(1) by auto
  show ?case using i(2) b s by simp
qed

text \<open>
  Where the column has two different finite values the histogram does return ten bins, and
  their frequencies sum to the number of values. This holds for the exact arithmetic of
  this model only: in doubles the width can underflow to zero, or the difference of
  maximum and minimum overflow, and the histogram then throws as for a constant column.
\<close>

lemma histogram_counts_spread:
  assumes vals: "filter (\<lambda>v. v \<noteq> NaN) (map (\<lambda>d. toNumber (row_at d yAxis)) data) = map Fin qs"
    and spread: "a \<in> set qs" "b \<in> set qs" "a < b"
  shows "\<exists>bins. histogram data yAxis = Inr bins \<and> length bins = 10
               \<and> sum_list (map snd bins) = length qs"
proof -
  obtain q0 qr where qs: "qs = q0 # qr" using spread(1) by (cases qs) auto
  define lo where "lo = fold min qr q0"
  define hi where "hi = fold max qr q0"
  have lo: "\<forall>q \<in> set qs. lo \<le> q"
    unfolding lo_def qs using fold_min_le_init [of qr q0] fold_min_le_elem [of _ qr q0] by auto
  have hi: "\<forall>q \<in> set qs. q \<le> hi"
    unfolding hi_def qs using fold_max_ge_init [of q0 qr] fold_max_ge_elem [of _ qr q0] by auto
  have "lo \<le> a" "b \<le> hi" using lo hi spread by auto
  then have w: "0 < (hi - lo) / 10" using spread(3) by simp
  have step: "js_div (js_sub (Fin hi) (Fin lo)) (Fin 10) = Fin ((hi - lo) / 10)"
    by (simp add: js_sub_def)
  let ?d = "map (\<lambda>i. (toFixed1 (js_add (Fin lo) (js_mul (Fin (of_nat i)) (Fin ((hi - lo) / 10)))) @ '' - '' @
                            toFixed1 (js_add (Fin lo) (js_mul (Fin (of_nat (i + 1))) (Fin ((hi - lo) / 10)))), 0 :: nat))
                    [0..<10]"
  have d: "length ?d = 10" "sum_list (map snd ?d) = 0" by (simp_all add: comp_def)
  obtain bins where bins: "fold (countValue (Fin lo) (Fin ((hi - lo) / 10))) (map Fin qs) (Inr ?d) = Inr bins"
    "length bins = 10" "sum_list (map snd bins) = sum_list (map snd ?d) + length qs"
    using fold_countValue_counts [OF w lo d(1)] by blast
  have mn: "Math_min (map Fin qs) = Fin lo" unfolding qs lo_def by (rule Math_min_Fin)
  have mx: "Math_max (map Fin qs) = Fin hi" unfolding qs hi_def by (rule Math_max_Fin)
  have ne: "length (map Fin qs) \<noteq> 0" using qs by simp
  have "histogram data yAxis = Inr bins"
    unfolding histogram_def vals Let_def mn mx step using ne bins(1) by (simp only: if_False)
  then show ?thesis using bins(2,3) d(2) by simp
qed


lemma js_slice_take: "js_slice xs 0 (int n) = take n xs"
  by (auto simp: js_slice_def Let_def min_def)

lemma set_sort_insert: "set (sort_insert cmp x ys) = insert x (set ys)"
  by (induction ys) auto

lemma mset_sort_insert: "mset (sort_insert cmp x ys) = add_mset x (mset ys)"
  by (induction ys) auto

lemma mset_js_sort: "mset (js_sort cmp xs) = mset xs"
  unfolding js_sort_def by (induction xs) (simp_all add: mset_sort_insert)

lemma byValueDesc_Fin:
  "snd a = Fin p \<Longrightarrow> snd b = Fin q \<Longrightarrow> js_gt (byValueDesc a b) (Fin 0) \<longleftrightarrow> p < q"
  by (simp add: byValueDesc_def js_sub_def js_gt_def)

lemma sorted_sort_insert:
  assumes "\<forall>p \<in> set (x # ys). \<exists>q. snd p = Fin q"
    and "sorted_wrt (\<lambda>a b. js_le (snd b) (snd a)) ys"
  shows "sorted_wrt (\<lambda>a b. js_le (snd b) (snd a)) (sort_insert byValueDesc x ys)"
  using assms
proof (induction ys)
  case Nil
  then show ?case by simp
next
  case (Cons y ys)
  obtain p q where pq: "snd x = Fin p" "snd y = Fin q" using Cons.prems(1) by auto
  have fin: "\<forall>z \<in> set ys. \<exists>r. snd z = Fin r" using Cons.prems(1) by simp
  have below: "\<forall>z \<in> set ys. js_le (snd z) (Fin q)" using Cons.prems(2) pq by simp
  show ?case
  proof (cases "p < q")
    case True
    have "sorted_wrt (\<lambda>a b. js_le (snd b) (snd a)) (sort_insert byValueDesc x ys)"
      using Cons by simp
    then show ?thesis
      using True pq below by (simp add: byValueDesc_Fin set_sort_insert)
  next
    case False
    have "js_le (snd z) (Fin p)" if zin: "z \<in> set ys" for z
    proof -
      obtain r where r: "snd z = Fin r" using fin zin by auto
      then have "r \<le> q" using below zin by fastforce
      then show ?thesis using r False by simp
    qed
    then show ?thesis
      using False pq Cons.prems(2) by (simp add: byValueDesc_Fin)
  qed
qed

text \<open>
  The sort by value descending is a permutation, and on finite values its result is in
  descending order; the chart builder's aggregation truncates that sorted list.
\<close>

lemma sorted_js_sort:
  assumes "\<forall>p \<in> set xs. \<exists>q. snd p = Fin q"
  shows "sorted_wrt (\<lambda>a b. js_le (snd b) (snd a)) (js_sort byValueDesc xs)"
  using assms
proof (induction xs)
  case Nil
  then show ?case by (simp add: js_sort_def)
next
  case (Cons x xs)
  have s: "sorted_wrt (\<lambda>a b. js_le (snd b) (snd a)) (js_sort byValueDesc xs)"
    using Cons by simp
  have "set (js_sort byValueDesc xs) = set xs"
    using mset_js_sort [of byValueDesc xs] by (rule mset_eq_setD)
  then have "\<forall>p \<in> set (x # js_sort byValueDesc xs). \<exists>q. snd p = Fin q"
    using Cons.prems by simp
  then have "sorted_wrt (\<lambda>a b. js_le (snd b) (snd a)) (sort_insert byValueDesc x (js_sort byValueDesc xs))"
    using s by (rule sorted_sort_insert)
  then show ?case by (simp add: js_sort_def)
qed

lemma chartData_sorts_then_truncates:
  assumes "chartData ns data xAxis yAxis = Inr result"
  shows "\<exists>g. fold (chartGroup ns xAxis yAxis) (js_slice data 0 500) (Inr []) = Inr g
             \<and> result = take 15 (js_sort byValueDesc (map (\<lambda>key. (key, groupMean g key)) (groupedKeys g)))"
  using assms js_slice_take [of _ 15]
  by (auto simp: chartData_def split: sum.splits)


end
